theory Spec2Isabelle
  imports Main "HOL-Library.Multiset"
begin

section \<open>JavaScript values and helpers used by the scripts\<close>

text \<open>
  An exception is represented by its \<open>message\<close>: every handler of the scripts reads
  only \<open>error.message\<close>.  A fallible call returns \<open>string + 'a\<close>, \<open>Inl\<close> being the
  thrown message.
\<close>

type_synonym 'a js_result = "string + 'a"

subsection \<open>Strings\<close>

text \<open>The apostrophe and the line feed, which a string literal cannot hold.\<close>

definition apostrophe :: char where
  "apostrophe = CHR 0x27"

definition line_feed :: char where
  "line_feed = CHR 0x0A"

text \<open>\<open>String.prototype.toLowerCase\<close>, on the ASCII letters that type names are made of.\<close>

definition toLowerCase_char :: "char \<Rightarrow> char" where
  "toLowerCase_char c =
     (case map_of (zip ''ABCDEFGHIJKLMNOPQRSTUVWXYZ'' ''abcdefghijklmnopqrstuvwxyz'') c of
        None \<Rightarrow> c
      | Some l \<Rightarrow> l)"

definition toLowerCase :: "string \<Rightarrow> string" where
  "toLowerCase s = map toLowerCase_char s"

text \<open>\<open>String.prototype.includes\<close>: the pattern occurs as a contiguous substring.\<close>

fun includes_str :: "string \<Rightarrow> string \<Rightarrow> bool" where
  "includes_str [] pat = (pat = [])"
| "includes_str (c # cs) pat = (take (length pat) (c # cs) = pat \<or> includes_str cs pat)"

text \<open>\<open>Array.prototype.join\<close> on strings.\<close>

fun join :: "string \<Rightarrow> string list \<Rightarrow> string" where
  "join sep [] = []"
| "join sep [x] = x"
| "join sep (x # y # ys) = x @ sep @ join sep (y # ys)"

text \<open>
  The decimal rendering of an integer inside a template string; \<open>null\<close> renders as
  \<open>null\<close>.  \<open>digit_char\<close> is only ever applied below 10 (decimal) or below 16
  (hexadecimal).
\<close>

definition digit_char :: "nat \<Rightarrow> char" where
  "digit_char d = ''0123456789abcdef'' ! d"

function show_nat :: "nat \<Rightarrow> string" where
  "show_nat n = (if n < 10 then [digit_char n] else show_nat (n div 10) @ [digit_char (n mod 10)])"
  by pat_completeness auto
termination
  by (relation "measure id") auto

declare show_nat.simps [simp del]

definition show_int :: "int \<Rightarrow> string" where
  "show_int i = (if i < 0 then CHR ''-'' # show_nat (nat (- i)) else show_nat (nat i))"

definition show_nullable :: "int option \<Rightarrow> string" where
  "show_nullable v = (case v of None \<Rightarrow> ''null'' | Some i \<Rightarrow> show_int i)"

subsection \<open>\<open>Map\<close>\<close>

text \<open>
  A JavaScript \<open>Map\<close> iterates its keys in the order of their first insertion and
  keeps the value of the last \<open>set\<close> for a key: an association list in which \<open>set\<close>
  replaces in place or appends.
\<close>

type_synonym ('k, 'v) js_map = "('k \<times> 'v) list"

fun map_set :: "('k, 'v) js_map \<Rightarrow> 'k \<Rightarrow> 'v \<Rightarrow> ('k, 'v) js_map" where
  "map_set [] k v = [(k, v)]"
| "map_set ((k', v') # m) k v = (if k' = k then (k, v) # m else (k', v') # map_set m k v)"

definition new_Map :: "('k \<times> 'v) list \<Rightarrow> ('k, 'v) js_map" where
  "new_Map entries = foldl (\<lambda>m (k, v). map_set m k v) [] entries"

definition map_get :: "('k, 'v) js_map \<Rightarrow> 'k \<Rightarrow> 'v option" where
  "map_get m k = map_of m k"

definition map_has :: "('k, 'v) js_map \<Rightarrow> 'k \<Rightarrow> bool" where
  "map_has m k = (map_of m k \<noteq> None)"

subsection \<open>Effects\<close>

text \<open>
  The two connection pools are external.  Every statement the scripts send is recorded
  as an event, and the outcome of each statement (rows, or a thrown message) is a
  parameter of the model, one per place where the statement is issued, so that a theorem
  holds for whatever the two databases answer.  A computation returns its result
  together with the events it caused, in order.

  The events: the catalog query of \<open>getTableSchema\<close> (with the sanitized name), a
  \<open>COUNT(*)\<close> query, the aggregate checksum query (with its column list), a statement
  on the target given by its text, the window query \<open>OFFSET offset FETCH NEXT n\<close>, a bulk
  load of rows, a single-row \<open>INSERT\<close> (table, column names, values), the delay of a
  retry, and the line that the row loop's \<open>catch\<close> logs.  \<open>CalculateTableChecksum\<close> and
  \<open>TransferBatchIndividually\<close> mark the calls of these two functions.
\<close>

datatype side = Source | Target

text \<open>
  The values of a row as the driver delivers them.  A \<open>Date\<close> is invalid or given by its
  UTC year, month, day, hours, minutes, seconds and milliseconds; a \<open>Buffer\<close> is its
  bytes; a number is an integer here, and \<open>JOther\<close> stands for any other value through
  the string that \<open>ToString\<close> gives for it.
\<close>

datatype jsdate = InvalidDate | UTC int nat nat nat nat nat nat

datatype jsvalue =
    JNull
  | JUndefined
  | JDate jsdate
  | JString string
  | JBoolean bool
  | JBuffer "char list"
  | JNumber int
  | JOther string

type_synonym row = "(string \<times> jsvalue) list"

datatype event =
    GetTableSchema side string
  | CountRows side string
  | CalculateTableChecksum side string
  | ChecksumQuery side string string
  | TargetStatement string
  | FetchWindow string nat nat
  | BulkInsert string "row list"
  | TransferBatchIndividually string nat nat
  | InsertRow string string string
  | RowSkipped string
  | Sleep nat

type_synonym 'a io = "'a js_result \<times> event list"

definition return_io :: "'a \<Rightarrow> 'a io" where
  "return_io v = (Inr v, [])"

definition throw_io :: "string \<Rightarrow> 'a io" where
  "throw_io e = (Inl e, [])"

definition bind_io :: "'a io \<Rightarrow> ('a \<Rightarrow> 'b io) \<Rightarrow> 'b io" where
  "bind_io m f =
     (case m of
        (Inl e, tr) \<Rightarrow> (Inl e, tr)
      | (Inr v, tr) \<Rightarrow> (case f v of (r, tr') \<Rightarrow> (r, tr @ tr')))"

text \<open>One statement: its event, and the outcome the database gave.\<close>

definition call_io :: "event \<Rightarrow> 'a js_result \<Rightarrow> 'a io" where
  "call_io ev r = (r, [ev])"

text \<open>A statement with no result set: \<open>None\<close> when it succeeds, the message when it throws.\<close>

definition statement_io :: "event \<Rightarrow> string option \<Rightarrow> unit io" where
  "statement_io ev r = ((case r of None \<Rightarrow> Inr () | Some e \<Rightarrow> Inl e), [ev])"

subsection \<open>The catalog's column descriptor and the verification result\<close>

record column =
  COLUMN_NAME :: string
  DATA_TYPE :: string
  CHARACTER_MAXIMUM_LENGTH :: "int option"
  NUMERIC_PRECISION :: "int option"
  NUMERIC_SCALE :: "int option"
  IS_NULLABLE :: string
  COLUMN_DEFAULT :: "string option"

record issue =
  type :: string
  message :: string

record verification_result =
  table :: string
  status :: string
  rowCount :: nat
  issues :: "issue list"

section \<open>utils: \<open>executeWithRetry\<close>\<close>

text \<open>
  \<^verbatim>\<open>
  async function executeWithRetry(operation, maxRetries = 3, delay = 1000) {
      for (let attempt = 1; attempt <= maxRetries; attempt++) {
          try { return await operation(); }
          catch (error) {
              if (attempt === maxRetries) { throw error; }
              await new Promise(resolve => setTimeout(resolve, delay));
              delay *= 2;
          }
      }
  }
  \<close>
  The operation is an arbitrary effectful callable; what the wrapper can observe of it
  is the outcome of its first, second, ... invocation, so it is given as the function
  from the invocation index (from 0) to that outcome.  The result records what was
  returned or thrown, the delays slept in order, and how many times the operation was
  invoked.  A loop that never runs its body falls off the end of the function, which
  in JavaScript returns \<open>undefined\<close>: \<open>Inr None\<close>.
\<close>

record 'a retry_result =
  outcome :: "string + 'a option"
  delays :: "nat list"
  attempts :: nat

function executeWithRetry_loop ::
  "(nat \<Rightarrow> 'a js_result) \<Rightarrow> nat \<Rightarrow> nat \<Rightarrow> nat \<Rightarrow> nat list \<Rightarrow> 'a retry_result" where
  "executeWithRetry_loop operation maxRetries delay attempt slept =
     (if attempt \<le> maxRetries then
        (case operation (attempt - 1) of
           Inr v \<Rightarrow> \<lparr>outcome = Inr (Some v), delays = slept, attempts = attempt\<rparr>
         | Inl e \<Rightarrow>
             if attempt = maxRetries
             then \<lparr>outcome = Inl e, delays = slept, attempts = attempt\<rparr>
             else executeWithRetry_loop operation maxRetries (delay * 2) (attempt + 1)
                    (slept @ [delay]))
      else \<lparr>outcome = Inr None, delays = slept, attempts = attempt - 1\<rparr>)"
  by pat_completeness auto
termination
  by (relation "measure (\<lambda>(operation, maxRetries, delay, attempt, slept). Suc maxRetries - attempt)") auto

definition executeWithRetry :: "(nat \<Rightarrow> 'a js_result) \<Rightarrow> nat \<Rightarrow> nat \<Rightarrow> 'a retry_result" where
  "executeWithRetry operation maxRetries delay =
     executeWithRetry_loop operation maxRetries delay 1 []"

text \<open>The call with both defaults, \<open>maxRetries = 3\<close> and \<open>delay = 1000\<close>.\<close>

definition executeWithRetry_default :: "(nat \<Rightarrow> 'a js_result) \<Rightarrow> 'a retry_result" where
  "executeWithRetry_default operation = executeWithRetry operation 3 1000"

text \<open>The delays of a run that slept \<open>k\<close> times from initial delay \<open>d\<close>.\<close>

definition backoff :: "nat \<Rightarrow> nat \<Rightarrow> nat list" where
  "backoff d k = map (\<lambda>i. d * 2 ^ i) [0..<k]"

declare executeWithRetry_loop.simps [simp del]

text \<open>
  The events of a retried statement: one event per attempt, with the delay slept between
  two attempts.
\<close>

fun retry_events :: "event \<Rightarrow> nat \<Rightarrow> nat list \<Rightarrow> event list" where
  "retry_events ev 0 ds = []"
| "retry_events ev (Suc n) [] = ev # retry_events ev n []"
| "retry_events ev (Suc n) (d # ds) = ev # Sleep d # retry_events ev n ds"

text \<open>
  \<open>executeWithRetry\<close> around one statement, with the defaults, as every caller in the
  scripts uses it.  With three attempts the loop always returns or throws from its body.
\<close>

definition retry_io :: "event \<Rightarrow> (nat \<Rightarrow> 'a js_result) \<Rightarrow> 'a option io" where
  "retry_io ev operation =
     (let r = executeWithRetry_default operation
      in (outcome r, retry_events ev (attempts r) (delays r)))"

section \<open>utils: \<open>sanitizeTableName\<close>\<close>

text \<open>The class \<open>\w\<close> of a regular expression: letters, digits and the underscore.\<close>

definition is_word_char :: "char \<Rightarrow> bool" where
  "is_word_char c =
     (c \<in> set ''abcdefghijklmnopqrstuvwxyzABCDEFGHIJKLMNOPQRSTUVWXYZ0123456789_'')"

definition sanitizeTableName :: "string \<Rightarrow> string js_result" where
  "sanitizeTableName tableName =
     (if tableName = [] then Inl ''Table name must be a non-empty string''
      else let sanitized = filter is_word_char tableName
           in if length sanitized = 0 then Inl ''Table name contains no valid characters''
              else Inr sanitized)"

section \<open>database: \<open>getTableSchema\<close>, \<open>createTableIfNotExists\<close>\<close>

text \<open>
  \<open>getTableSchema(pool, tableName)\<close> sanitizes the name and reads the columns of that name
  from the catalog, in ordinal order.  \<open>catalog\<close> is what the catalog answers at this
  call for a sanitized name.
\<close>

definition getTableSchema ::
  "side \<Rightarrow> (string \<Rightarrow> column list js_result) \<Rightarrow> string \<Rightarrow> column list io" where
  "getTableSchema pool catalog tableName =
     (case sanitizeTableName tableName of
        Inl e \<Rightarrow> throw_io e
      | Inr sanitizedTable \<Rightarrow> call_io (GetTableSchema pool sanitizedTable) (catalog sanitizedTable))"

text \<open>
  The column definition that \<open>createTableIfNotExists\<close> and \<open>generateCreateTableSQL\<close> both
  build.  \<open>x && x > 0\<close> on a nullable number holds for a positive number only, \<open>!x\<close> for
  \<open>null\<close> and \<open>0\<close>.
\<close>

definition precisionScale :: "column \<Rightarrow> string" where
  "precisionScale col =
     (case (NUMERIC_PRECISION col, NUMERIC_SCALE col) of
        (Some p, Some sc) \<Rightarrow>
          if p \<noteq> 0 then ''('' @ show_int p @ '','' @ show_int sc @ '')'' else []
      | _ \<Rightarrow> [])"

definition columnDef :: "column \<Rightarrow> string" where
  "columnDef col =
     (''['' @ COLUMN_NAME col @ ''] '' @ DATA_TYPE col)
     @ (if (case CHARACTER_MAXIMUM_LENGTH col of Some n \<Rightarrow> n > 0 | None \<Rightarrow> False)
        then ''('' @ show_nullable (CHARACTER_MAXIMUM_LENGTH col) @ '')''
        else if DATA_TYPE col = ''decimal'' \<or> DATA_TYPE col = ''numeric''
        then precisionScale col
        else if DATA_TYPE col = ''varchar'' \<or> DATA_TYPE col = ''nvarchar''
        then (if CHARACTER_MAXIMUM_LENGTH col = Some (- 1) then ''(MAX)''
              else if CHARACTER_MAXIMUM_LENGTH col = None \<or> CHARACTER_MAXIMUM_LENGTH col = Some 0
              then ''(255)''
              else [])
        else [])
     @ (if IS_NULLABLE col = ''NO'' then '' NOT NULL'' else [])"


section \<open>verifier\<close>

subsection \<open>\<open>compareTableStructure\<close>\<close>

text \<open>The three comparisons made for a column that both sides have.\<close>

definition columnDifferences :: "string \<Rightarrow> column \<Rightarrow> column \<Rightarrow> string list" where
  "columnDifferences colName sourceCol targetCol =
     (if DATA_TYPE sourceCol \<noteq> DATA_TYPE targetCol
      then [''Column '' @ colName @ '' type mismatch: source '' @ DATA_TYPE sourceCol
            @ '', target '' @ DATA_TYPE targetCol]
      else [])
     @ (if IS_NULLABLE sourceCol \<noteq> IS_NULLABLE targetCol
        then [''Column '' @ colName @ '' nullable mismatch: source ''
              @ IS_NULLABLE sourceCol @ '', target '' @ IS_NULLABLE targetCol]
        else [])
     @ (if CHARACTER_MAXIMUM_LENGTH sourceCol \<noteq> CHARACTER_MAXIMUM_LENGTH targetCol
        then [''Column '' @ colName @ '' length mismatch: source ''
              @ show_nullable (CHARACTER_MAXIMUM_LENGTH sourceCol) @ '', target ''
              @ show_nullable (CHARACTER_MAXIMUM_LENGTH targetCol)]
        else [])"

text \<open>The body of the loop over the entries of \<open>sourceColumns\<close>.\<close>

definition compareColumn :: "(string, column) js_map \<Rightarrow> string \<times> column \<Rightarrow> string list" where
  "compareColumn targetColumns entry =
     (case entry of (colName, sourceCol) \<Rightarrow>
        (case map_get targetColumns colName of
           None \<Rightarrow> [''Missing column in target: '' @ colName]
         | Some targetCol \<Rightarrow> columnDifferences colName sourceCol targetCol))"

text \<open>The comparison proper, once both schemas are read.\<close>

definition column_entries :: "column list \<Rightarrow> (string \<times> column) list" where
  "column_entries schema = map (\<lambda>col. (COLUMN_NAME col, col)) schema"

definition structureDifferences :: "column list \<Rightarrow> column list \<Rightarrow> string list" where
  "structureDifferences sourceSchema targetSchema =
     (let sourceColumns = new_Map (column_entries sourceSchema);
          targetColumns = new_Map (column_entries targetSchema)
      in (if length sourceSchema \<noteq> length targetSchema
          then [''Column count mismatch: source '' @ show_nat (length sourceSchema)
                @ '', target '' @ show_nat (length targetSchema)]
          else [])
         @ concat (map (compareColumn targetColumns) sourceColumns)
         @ concat (map (\<lambda>colName. if \<not> map_has sourceColumns colName
                                   then [''Extra column in target: '' @ colName] else [])
                       (map fst targetColumns)))"

definition compareTableStructure ::
  "(string \<Rightarrow> column list js_result) \<Rightarrow> (string \<Rightarrow> column list js_result) \<Rightarrow> string
   \<Rightarrow> string list io" where
  "compareTableStructure sourceCatalog targetCatalog tableName =
     bind_io (getTableSchema Source sourceCatalog tableName) (\<lambda>sourceSchema.
     bind_io (getTableSchema Target targetCatalog tableName) (\<lambda>targetSchema.
     return_io (structureDifferences sourceSchema targetSchema)))"

subsection \<open>\<open>compareTableRowCounts\<close>\<close>

record row_counts =
  sourceCount :: nat
  targetCount :: nat
  match :: bool

definition compareTableRowCounts ::
  "nat js_result \<Rightarrow> nat js_result \<Rightarrow> string \<Rightarrow> row_counts io" where
  "compareTableRowCounts sourceCountResult targetCountResult tableName =
     bind_io (call_io (CountRows Source tableName) sourceCountResult) (\<lambda>sc.
     bind_io (call_io (CountRows Target tableName) targetCountResult) (\<lambda>tc.
     return_io \<lparr>sourceCount = sc, targetCount = tc, match = (sc = tc)\<rparr>))"

subsection \<open>\<open>calculateTableChecksum\<close>\<close>

definition checksumColumn :: "column \<Rightarrow> string" where
  "checksumColumn col =
     (if toLowerCase (DATA_TYPE col) \<in> set [''datetime'', ''datetime2'', ''smalldatetime'']
      then ''ISNULL(CONVERT(varchar(23), ['' @ COLUMN_NAME col @ ''], 121), ''
           @ [apostrophe] @ ''NULL'' @ [apostrophe] @ '')''
      else ''ISNULL(CAST(['' @ COLUMN_NAME col @ ''] AS NVARCHAR(MAX)), ''
           @ [apostrophe] @ ''NULL'' @ [apostrophe] @ '')'')"

definition isVersionColumn :: "column \<Rightarrow> bool" where
  "isVersionColumn col = (toLowerCase (DATA_TYPE col) \<in> set [''timestamp'', ''rowversion''])"

definition checksumColumnList :: "column list \<Rightarrow> string" where
  "checksumColumnList schema =
     join ('' + '' @ [apostrophe] @ ''|'' @ [apostrophe] @ '' + '')
       (map checksumColumn (filter (\<lambda>col. \<not> isVersionColumn col) schema))"

record checksum_result =
  checksum :: int
  checksumRowCount :: nat

text \<open>
  \<open>aggregate\<close> is what the database answers to the aggregate query over the given column
  list: the row count and \<open>CHECKSUM_AGG\<close>, which is \<open>NULL\<close> over no rows.
\<close>

definition calculateTableChecksum ::
  "side \<Rightarrow> (string \<Rightarrow> (nat \<times> int option) js_result) \<Rightarrow> string \<Rightarrow> column list
   \<Rightarrow> checksum_result io" where
  "calculateTableChecksum pool aggregate tableName schema =
     (let columnList = checksumColumnList schema
      in bind_io (Inr (), [CalculateTableChecksum pool tableName]) (\<lambda>_.
         if columnList = [] then return_io \<lparr>checksum = 0, checksumRowCount = 0\<rparr>
         else bind_io (call_io (ChecksumQuery pool tableName columnList) (aggregate columnList))
                (\<lambda>(row_count, cs).
                   return_io \<lparr>checksum = (case cs of None \<Rightarrow> 0 | Some c \<Rightarrow> c),
                              checksumRowCount = row_count\<rparr>)))"

subsection \<open>\<open>verifyTableData\<close>\<close>

text \<open>What the two databases answer at each statement of one verification.\<close>

record verify_env =
  structureSourceCatalog :: "string \<Rightarrow> column list js_result"
  structureTargetCatalog :: "string \<Rightarrow> column list js_result"
  sourceCountResult :: "nat js_result"
  targetCountResult :: "nat js_result"
  checksumSourceCatalog :: "string \<Rightarrow> column list js_result"
  sourceAggregate :: "string \<Rightarrow> (nat \<times> int option) js_result"
  targetAggregate :: "string \<Rightarrow> (nat \<times> int option) js_result"

text \<open>The checksum step: the body of the last \<open>if\<close> of the \<open>try\<close> block.\<close>

definition checksumStep :: "verify_env \<Rightarrow> string \<Rightarrow> issue list io" where
  "checksumStep env tableName =
     bind_io (getTableSchema Source (checksumSourceCatalog env) tableName) (\<lambda>sourceSchema.
     bind_io (calculateTableChecksum Source (sourceAggregate env) tableName sourceSchema)
       (\<lambda>sourceChecksum.
     bind_io (calculateTableChecksum Target (targetAggregate env) tableName sourceSchema)
       (\<lambda>targetChecksum.
     return_io
       (if checksum sourceChecksum \<noteq> checksum targetChecksum
        then [\<lparr>type = ''DATA_CHECKSUM'',
               message = ''Data checksum mismatch: source ''
                 @ show_int (checksum sourceChecksum) @ '', target ''
                 @ show_int (checksum targetChecksum)\<rparr>]
        else []))))"

text \<open>
  The \<open>issues\<close> array as the \<open>try\<close> block fills it, in the order of its three
  \<open>push\<close>es, and the object it returns.
\<close>

definition verificationResult ::
  "string \<Rightarrow> string list \<Rightarrow> row_counts \<Rightarrow> issue list \<Rightarrow> verification_result" where
  "verificationResult tableName structureDiffs rowCountComparison checksumIssues =
     (let issues =
            (if length structureDiffs > 0
             then map (\<lambda>diff. \<lparr>type = ''STRUCTURE'', message = diff\<rparr>) structureDiffs
             else [])
            @ (if \<not> match rowCountComparison
               then [\<lparr>type = ''ROW_COUNT'',
                      message = ''Row count mismatch: source ''
                        @ show_nat (sourceCount rowCountComparison) @ '', target ''
                        @ show_nat (targetCount rowCountComparison)\<rparr>]
               else [])
            @ checksumIssues
      in \<lparr>table = tableName,
          status = (if length issues = 0 then ''MATCH'' else ''MISMATCH''),
          rowCount = sourceCount rowCountComparison,
          issues = issues\<rparr>)"

text \<open>The body of the \<open>try\<close> block.\<close>

definition verifyTableData_try :: "verify_env \<Rightarrow> string \<Rightarrow> verification_result io" where
  "verifyTableData_try env tableName =
     bind_io (compareTableStructure (structureSourceCatalog env) (structureTargetCatalog env)
                tableName) (\<lambda>structureDiffs.
     bind_io (compareTableRowCounts (sourceCountResult env) (targetCountResult env) tableName)
       (\<lambda>rowCountComparison.
     bind_io
       (if sourceCount rowCountComparison > 0 \<and> length structureDiffs = 0
        then checksumStep env tableName
        else return_io [])
       (\<lambda>checksumIssues.
     return_io (verificationResult tableName structureDiffs rowCountComparison checksumIssues))))"

text \<open>The object the \<open>catch\<close> block returns.\<close>

definition errorResult :: "string \<Rightarrow> string \<Rightarrow> verification_result" where
  "errorResult tableName error_message =
     \<lparr>table = tableName, status = ''ERROR'', rowCount = 0,
      issues = [\<lparr>type = ''ERROR'', message = error_message\<rparr>]\<rparr>"

text \<open>
  The function with its \<open>catch\<close>: it always returns a result.  The events are kept
  beside it.
\<close>

definition verifyTableData :: "verify_env \<Rightarrow> string \<Rightarrow> verification_result \<times> event list" where
  "verifyTableData env tableName =
     (case verifyTableData_try env tableName of
        (Inr r, tr) \<Rightarrow> (r, tr)
      | (Inl error_message, tr) \<Rightarrow> (errorResult tableName error_message, tr))"

section \<open>fixer\<close>

text \<open>
  What the two databases and the runtime answer during the repair or the transfer of one
  table.  A statement that is issued once is indexed by its text; a window statement by
  the window's offset (each offset is visited once) and, inside \<open>executeWithRetry\<close>, by
  the attempt; a single-row \<open>INSERT\<close> by the offset and the row's index in the window.
  A window query answers with the rows of the table in the order the database chose for
  that query; \<open>fetchWindow\<close> then cuts the window out of them.
\<close>

record db_env =
  targetQuery :: "string \<Rightarrow> string option"
  fixSourceCatalog :: "string \<Rightarrow> column list js_result"
  fixTargetCatalog :: "string \<Rightarrow> column list js_result"
  sourceCatalog :: "string \<Rightarrow> column list js_result"
  totalResult :: "nat js_result"
  fetchResult :: "nat \<Rightarrow> nat \<Rightarrow> row list js_result"
  bulkResult :: "nat \<Rightarrow> nat \<Rightarrow> row list \<Rightarrow> string option"
  fallbackRows :: "nat \<Rightarrow> row list js_result"
  insertResult :: "nat \<Rightarrow> nat \<Rightarrow> string \<Rightarrow> string \<Rightarrow> string option"
  parseDate :: "string \<Rightarrow> jsdate"
  dateToString :: "jsdate \<Rightarrow> string"

text \<open>\<open>OFFSET offset ROWS FETCH NEXT n ROWS ONLY\<close>.\<close>

definition fetchWindow :: "row list js_result \<Rightarrow> nat \<Rightarrow> nat \<Rightarrow> row list js_result" where
  "fetchWindow answer offset n =
     (case answer of Inl e \<Rightarrow> Inl e | Inr rows \<Rightarrow> Inr (take n (drop offset rows)))"

definition prefix_events :: "event list \<Rightarrow> 'a io \<Rightarrow> 'a io" where
  "prefix_events tr m = (fst m, tr @ snd m)"

subsection \<open>\<open>fixTableStructure\<close> and \<open>generateCreateTableSQL\<close>\<close>

definition generateCreateTableSQL :: "string \<Rightarrow> column list \<Rightarrow> string" where
  "generateCreateTableSQL tableName schema =
     ''CREATE TABLE ['' @ tableName @ ''] ('' @ [line_feed] @ ''    ''
     @ join ('','' @ [line_feed] @ ''    '') (map columnDef schema)
     @ [line_feed] @ '')''"

definition target_statement :: "db_env \<Rightarrow> string \<Rightarrow> unit io" where
  "target_statement env q = statement_io (TargetStatement q) (targetQuery env q)"

definition fixTableStructure :: "db_env \<Rightarrow> string \<Rightarrow> bool io" where
  "fixTableStructure env tableName =
     bind_io (getTableSchema Source (fixSourceCatalog env) tableName) (\<lambda>sourceSchema.
     bind_io (getTableSchema Target (fixTargetCatalog env) tableName) (\<lambda>targetSchema.
     bind_io (target_statement env (''DROP TABLE IF EXISTS ['' @ tableName @ ''_backup]'')) (\<lambda>_.
     bind_io (target_statement env
                (''SELECT * INTO ['' @ tableName @ ''_backup] FROM ['' @ tableName @ '']'')) (\<lambda>_.
     bind_io (target_statement env (''DROP TABLE ['' @ tableName @ '']'')) (\<lambda>_.
     bind_io (target_statement env (generateCreateTableSQL tableName sourceSchema)) (\<lambda>_.
     return_io True))))))"

subsection \<open>\<open>transferBatchIndividually\<close>\<close>

text \<open>
  \<open>Date.prototype.toISOString\<close>: a \<open>RangeError\<close> on an invalid date; years outside
  0..9999 are written with a sign and six digits.
\<close>

definition pad :: "nat \<Rightarrow> nat \<Rightarrow> string" where
  "pad w n = replicate (w - length (show_nat n)) (CHR ''0'') @ show_nat n"

fun toISOString :: "jsdate \<Rightarrow> string js_result" where
  "toISOString InvalidDate = Inl ''Invalid time value''"
| "toISOString (UTC y mo d h mi s ms) =
     Inr ((if 0 \<le> y \<and> y \<le> 9999 then pad 4 (nat y)
           else (if y < 0 then ''-'' else ''+'') @ pad 6 (nat \<bar>y\<bar>))
          @ ''-'' @ pad 2 mo @ ''-'' @ pad 2 d @ ''T'' @ pad 2 h @ '':'' @ pad 2 mi @ '':''
          @ pad 2 s @ ''.'' @ pad 3 ms @ ''Z'')"

text \<open>\<open>replace\<close> with a string pattern replaces the first occurrence.\<close>

fun replace_first :: "char \<Rightarrow> char \<Rightarrow> string \<Rightarrow> string" where
  "replace_first a b [] = []"
| "replace_first a b (c # cs) = (if c = a then b # cs else c # replace_first a b cs)"

text \<open>\<open>'${isoString.slice(0, 19).replace('T', ' ')}'\<close>\<close>

definition dateLiteral :: "string \<Rightarrow> string" where
  "dateLiteral isoString =
     [apostrophe] @ replace_first (CHR ''T'') (CHR '' '') (take 19 isoString) @ [apostrophe]"

text \<open>\<open>'${value.replace(/'/g, "''")}'\<close>\<close>

definition textLiteral :: "string \<Rightarrow> string" where
  "textLiteral s =
     [apostrophe] @ concat (map (\<lambda>c. if c = apostrophe then [apostrophe, apostrophe] else [c]) s)
     @ [apostrophe]"

text \<open>\<open>0x${value.toString('hex')}\<close>\<close>

definition hexLiteral :: "char list \<Rightarrow> string" where
  "hexLiteral bytes =
     ''0x'' @ concat (map (\<lambda>b. [digit_char (of_char b div 16), digit_char (of_char b mod 16)]) bytes)"

definition isDateTimeColumn :: "column \<Rightarrow> bool" where
  "isDateTimeColumn col =
     (toLowerCase (DATA_TYPE col) \<in> set [''datetime'', ''datetime2'', ''smalldatetime''])"

text \<open>
  The function mapped over \<open>Object.entries(row)\<close>.  It returns a string for the values
  it renders and the value itself otherwise; it throws where \<open>toISOString\<close> does.
\<close>

definition coerceValue ::
  "column list \<Rightarrow> (string \<Rightarrow> jsdate) \<Rightarrow> string \<times> jsvalue \<Rightarrow> jsvalue js_result" where
  "coerceValue schema parse entry =
     (case entry of (key, v) \<Rightarrow>
        let column = find (\<lambda>c. COLUMN_NAME c = key) schema
        in if v = JNull \<or> v = JUndefined then Inr (JString ''NULL'')
           else if (case column of None \<Rightarrow> False | Some c \<Rightarrow> isDateTimeColumn c) then
             (case v of
                JDate d \<Rightarrow>
                  (case toISOString d of
                     Inl e \<Rightarrow> Inl e
                   | Inr isoString \<Rightarrow> Inr (JString (dateLiteral isoString)))
              | JString s \<Rightarrow>
                  (let date = parse s
                   in if date = InvalidDate then Inr (JString ''NULL'')
                      else (case toISOString date of
                              Inl e \<Rightarrow> Inr (JString ''NULL'')
                            | Inr isoString \<Rightarrow> Inr (JString (dateLiteral isoString))))
              | _ \<Rightarrow> Inr (JString ''NULL''))
           else
             (case v of
                JString s \<Rightarrow> Inr (JString (textLiteral s))
              | JBoolean b \<Rightarrow> Inr (JString (if b then ''1'' else ''0''))
              | JBuffer bytes \<Rightarrow> Inr (JString (hexLiteral bytes))
              | _ \<Rightarrow> Inr v))"

text \<open>
  \<open>Array.prototype.join\<close> renders each element that is not a string with \<open>ToString\<close>.
  The rendering of a \<open>Date\<close> depends on the runtime and is a parameter.
\<close>

fun toStringJS :: "(jsdate \<Rightarrow> string) \<Rightarrow> jsvalue \<Rightarrow> string" where
  "toStringJS dts JNull = []"
| "toStringJS dts JUndefined = []"
| "toStringJS dts (JDate d) = dts d"
| "toStringJS dts (JString s) = s"
| "toStringJS dts (JBoolean b) = (if b then ''true'' else ''false'')"
| "toStringJS dts (JBuffer bytes) = bytes"
| "toStringJS dts (JNumber n) = show_int n"
| "toStringJS dts (JOther s) = s"

text \<open>\<open>map\<close> with a callback that may throw: the first exception ends it.\<close>

fun map_throwing :: "('a \<Rightarrow> 'b js_result) \<Rightarrow> 'a list \<Rightarrow> 'b list js_result" where
  "map_throwing f [] = Inr []"
| "map_throwing f (x # xs) =
     (case f x of
        Inl e \<Rightarrow> Inl e
      | Inr y \<Rightarrow> (case map_throwing f xs of Inl e \<Rightarrow> Inl e | Inr ys \<Rightarrow> Inr (y # ys)))"

text \<open>
  One iteration of the \<open>for\<close> loop over the window: whether the row was inserted, and
  the events.  The \<open>catch\<close> logs the first 100 characters of the message and goes on.
\<close>

definition insertRow ::
  "db_env \<Rightarrow> string \<Rightarrow> column list \<Rightarrow> nat \<Rightarrow> nat \<Rightarrow> row \<Rightarrow> bool \<times> event list" where
  "insertRow env tableName schema offset i r =
     (let columnNames = join '', '' (map (\<lambda>(col, v). ''['' @ col @ '']'') r)
      in case map_throwing (coerceValue schema (parseDate env)) r of
           Inl e \<Rightarrow> (False, [RowSkipped (take 100 e)])
         | Inr vs \<Rightarrow>
             (let values = join '', '' (map (toStringJS (dateToString env)) vs)
              in case insertResult env offset i columnNames values of
                   None \<Rightarrow> (True, [InsertRow tableName columnNames values])
                 | Some e \<Rightarrow>
                     (False, [InsertRow tableName columnNames values, RowSkipped (take 100 e)])))"

fun insertRows ::
  "db_env \<Rightarrow> string \<Rightarrow> column list \<Rightarrow> nat \<Rightarrow> nat \<Rightarrow> row list \<Rightarrow> nat \<times> event list" where
  "insertRows env tableName schema offset i [] = (0, [])"
| "insertRows env tableName schema offset i (r # rs) =
     (case insertRow env tableName schema offset i r of (ok, tr) \<Rightarrow>
        (case insertRows env tableName schema offset (Suc i) rs of (successCount, tr') \<Rightarrow>
           ((if ok then Suc successCount else successCount), tr @ tr')))"

definition transferBatchIndividually ::
  "db_env \<Rightarrow> string \<Rightarrow> column list \<Rightarrow> nat \<Rightarrow> nat \<Rightarrow> nat io" where
  "transferBatchIndividually env tableName schema offset batchSize =
     prefix_events [TransferBatchIndividually tableName offset batchSize]
       (bind_io (call_io (FetchWindow tableName offset batchSize)
                   (fetchWindow (fallbackRows env offset) offset batchSize)) (\<lambda>recordset.
        case insertRows env tableName schema offset 0 recordset of
          (successCount, tr) \<Rightarrow> (Inr successCount, tr)))"

subsection \<open>\<open>retransferTableData\<close>\<close>

definition RETRANSFER_BATCH_SIZE :: nat where
  "RETRANSFER_BATCH_SIZE = 5000"

definition bulk_attempts :: "db_env \<Rightarrow> nat \<Rightarrow> row list \<Rightarrow> nat \<Rightarrow> unit js_result" where
  "bulk_attempts env offset rows a =
     (case bulkResult env offset a rows of None \<Rightarrow> Inr () | Some e \<Rightarrow> Inl e)"

text \<open>
  The body of the inner \<open>try\<close>: the window is fetched and bulk-loaded, each inside
  \<open>executeWithRetry\<close>; the value is the number of rows the bulk load inserted.
\<close>

definition retransferWindow :: "db_env \<Rightarrow> string \<Rightarrow> column list \<Rightarrow> nat \<Rightarrow> nat io" where
  "retransferWindow env tableName schema offset =
     bind_io (retry_io (FetchWindow tableName offset RETRANSFER_BATCH_SIZE)
                (\<lambda>a. fetchWindow (fetchResult env offset a) offset RETRANSFER_BATCH_SIZE))
       (\<lambda>sourceData.
          case sourceData of
            None \<Rightarrow> throw_io ''Cannot read properties of undefined (reading recordset)''
          | Some recordset \<Rightarrow>
              if length recordset > 0
              then bind_io (retry_io (BulkInsert tableName recordset)
                              (bulk_attempts env offset recordset))
                     (\<lambda>_. return_io (length recordset))
              else return_io 0)"

definition isDataError :: "string \<Rightarrow> bool" where
  "isDataError error_message =
     (includes_str error_message ''OLE DB'' \<or> includes_str error_message ''invalid data''
      \<or> includes_str error_message ''Invalid column type'')"

function retransferLoop ::
  "db_env \<Rightarrow> string \<Rightarrow> column list \<Rightarrow> nat \<Rightarrow> nat \<Rightarrow> nat \<Rightarrow> nat io" where
  "retransferLoop env tableName schema totalRows offset insertedCount =
     (if offset < totalRows then
        (case retransferWindow env tableName schema offset of
           (Inr n, tr) \<Rightarrow>
             prefix_events tr
               (retransferLoop env tableName schema totalRows (offset + RETRANSFER_BATCH_SIZE)
                  (insertedCount + n))
         | (Inl error_message, tr) \<Rightarrow>
             if isDataError error_message then
               (case transferBatchIndividually env tableName schema offset
                       (min RETRANSFER_BATCH_SIZE (totalRows - offset)) of
                  (Inl e, tr') \<Rightarrow> (Inl e, tr @ tr')
                | (Inr successCount, tr') \<Rightarrow>
                    prefix_events (tr @ tr')
                      (retransferLoop env tableName schema totalRows
                         (offset + RETRANSFER_BATCH_SIZE) (insertedCount + successCount)))
             else (Inl error_message, tr))
      else (Inr insertedCount, []))"
  by pat_completeness auto
termination
  by (relation "measure (\<lambda>(env, tableName, schema, totalRows, offset, insertedCount).
                  totalRows - offset)")
     (auto simp: RETRANSFER_BATCH_SIZE_def)

declare retransferLoop.simps [simp del]

text \<open>
  The function returns nothing; the model returns the \<open>insertedCount\<close> it logs on
  completion, and \<open>None\<close> on the early return for an empty source table.
\<close>

definition retransferTableData :: "db_env \<Rightarrow> string \<Rightarrow> nat option io" where
  "retransferTableData env tableName =
     bind_io (target_statement env (''DELETE FROM ['' @ tableName @ '']'')) (\<lambda>_.
     bind_io (getTableSchema Source (sourceCatalog env) tableName) (\<lambda>schema.
     bind_io (call_io (CountRows Source tableName) (totalResult env)) (\<lambda>totalRows.
     if totalRows = 0 then return_io None
     else bind_io (retransferLoop env tableName schema totalRows 0 0)
            (\<lambda>insertedCount. return_io (Some insertedCount)))))"

subsection \<open>\<open>fixDatabaseIssues\<close>: the repair of the problematic tables\<close>

definition hasStructureIssues :: "verification_result \<Rightarrow> bool" where
  "hasStructureIssues verification = list_ex (\<lambda>i. type i = ''STRUCTURE'') (issues verification)"

definition hasDataIssues :: "verification_result \<Rightarrow> bool" where
  "hasDataIssues verification =
     list_ex (\<lambda>i. type i = ''ROW_COUNT'' \<or> type i = ''DATA_CHECKSUM'') (issues verification)"

text \<open>The body of the second \<open>for\<close> loop.\<close>

definition fixTable :: "db_env \<Rightarrow> string \<Rightarrow> verification_result \<Rightarrow> unit io" where
  "fixTable env tableName verification =
     bind_io (if hasStructureIssues verification
              then bind_io (fixTableStructure env tableName) (\<lambda>_. return_io ())
              else return_io ()) (\<lambda>_.
     if hasDataIssues verification
     then bind_io (retransferTableData env tableName) (\<lambda>_. return_io ())
     else return_io ())"

text \<open>
  The loop itself: an exception of one table's repair leaves the loop, and the function.
  \<open>envs i\<close> is what the databases answer while the \<open>i\<close>-th problematic table is repaired.
\<close>

fun fixTables :: "(nat \<Rightarrow> db_env) \<Rightarrow> nat \<Rightarrow> (string \<times> verification_result) list \<Rightarrow> unit io" where
  "fixTables envs i [] = return_io ()"
| "fixTables envs i ((tableName, verification) # problematicTables) =
     bind_io (fixTable (envs i) tableName verification)
       (\<lambda>_. fixTables envs (Suc i) problematicTables)"

text \<open>The selection of the problematic tables from the first verification pass.\<close>

definition problematic :: "(string \<times> verification_result) list \<Rightarrow> (string \<times> verification_result) list" where
  "problematic verified = filter (\<lambda>(tableName, verification). status verification \<noteq> ''MATCH'') verified"

section \<open>transfer: \<open>transferTableData\<close>\<close>






section \<open>Notions used to state the properties\<close>

text \<open>
  Two column descriptors that the structural verifier cannot tell apart: the same name,
  data type, nullability and character length.
\<close>

definition same_column :: "column \<Rightarrow> column \<Rightarrow> bool" where
  "same_column c d =
     (COLUMN_NAME c = COLUMN_NAME d \<and> DATA_TYPE c = DATA_TYPE d
      \<and> IS_NULLABLE c = IS_NULLABLE d
      \<and> CHARACTER_MAXIMUM_LENGTH c = CHARACTER_MAXIMUM_LENGTH d)"







text \<open>
  The literal \<open>'YYYY-MM-DD HH:MM:SS'\<close> of a date and time, each field zero-padded.
\<close>

definition sqlDateTime :: "int \<Rightarrow> nat \<Rightarrow> nat \<Rightarrow> nat \<Rightarrow> nat \<Rightarrow> nat \<Rightarrow> string" where
  "sqlDateTime y mo d h mi s =
     [apostrophe] @ pad 4 (nat y) @ ''-'' @ pad 2 mo @ ''-'' @ pad 2 d @ '' ''
     @ pad 2 h @ '':'' @ pad 2 mi @ '':'' @ pad 2 s @ [apostrophe]"

section \<open>Example inputs\<close>

definition col_id :: column where
  "col_id = \<lparr>COLUMN_NAME = ''id'', DATA_TYPE = ''int'', CHARACTER_MAXIMUM_LENGTH = None,
     NUMERIC_PRECISION = Some 10, NUMERIC_SCALE = Some 0, IS_NULLABLE = ''NO'',
     COLUMN_DEFAULT = None\<rparr>"

definition col_name :: column where
  "col_name = \<lparr>COLUMN_NAME = ''name'', DATA_TYPE = ''varchar'',
     CHARACTER_MAXIMUM_LENGTH = Some 50, NUMERIC_PRECISION = None, NUMERIC_SCALE = None,
     IS_NULLABLE = ''YES'', COLUMN_DEFAULT = None\<rparr>"

definition col_ver :: column where
  "col_ver = \<lparr>COLUMN_NAME = ''ver'', DATA_TYPE = ''timestamp'',
     CHARACTER_MAXIMUM_LENGTH = None, NUMERIC_PRECISION = None, NUMERIC_SCALE = None,
     IS_NULLABLE = ''NO'', COLUMN_DEFAULT = None\<rparr>"

definition col_at :: column where
  "col_at = \<lparr>COLUMN_NAME = ''at'', DATA_TYPE = ''datetime'',
     CHARACTER_MAXIMUM_LENGTH = None, NUMERIC_PRECISION = None, NUMERIC_SCALE = None,
     IS_NULLABLE = ''YES'', COLUMN_DEFAULT = None\<rparr>"

definition col_day :: column where
  "col_day = \<lparr>COLUMN_NAME = ''day'', DATA_TYPE = ''date'',
     CHARACTER_MAXIMUM_LENGTH = None, NUMERIC_PRECISION = None, NUMERIC_SCALE = None,
     IS_NULLABLE = ''YES'', COLUMN_DEFAULT = None\<rparr>"

text \<open>
  A verification in which every statement succeeds: the two schemas, five rows on both
  sides, and two different aggregate checksums.
\<close>

definition example_verify_env :: "column list \<Rightarrow> column list \<Rightarrow> verify_env" where
  "example_verify_env sourceSchema targetSchema =
     \<lparr>structureSourceCatalog = (\<lambda>t. Inr sourceSchema),
      structureTargetCatalog = (\<lambda>t. Inr targetSchema),
      sourceCountResult = Inr 5,
      targetCountResult = Inr 5,
      checksumSourceCatalog = (\<lambda>t. Inr sourceSchema),
      sourceAggregate = (\<lambda>columnList. Inr (5, Some 1721)),
      targetAggregate = (\<lambda>columnList. Inr (5, Some (- 408)))\<rparr>"

text \<open>
  Two rows of a table with the columns \<open>id\<close> and \<open>name\<close>, and the repair of that table
  when every bulk load fails with the given message, the statements on the target
  succeed, and of the single-row inserts only the first of a window succeeds.
\<close>

definition row_1 :: row where
  "row_1 = [(''id'', JNumber 1), (''name'', JString ''Ada'')]"

definition row_2 :: row where
  "row_2 = [(''id'', JNumber 1), (''name'', JString ''Bob'')]"

definition example_db_env :: "string \<Rightarrow> db_env" where
  "example_db_env bulkError =
     \<lparr>targetQuery = (\<lambda>q. None),
      fixSourceCatalog = (\<lambda>t. Inr [col_id, col_name]),
      fixTargetCatalog = (\<lambda>t. Inr [col_id]),
      sourceCatalog = (\<lambda>t. Inr [col_id, col_name]),
      totalResult = Inr 2,
      fetchResult = (\<lambda>offset attempt. Inr [row_1, row_2]),
      bulkResult = (\<lambda>offset attempt rows. Some bulkError),
      fallbackRows = (\<lambda>offset. Inr [row_1, row_2]),
      insertResult = (\<lambda>offset i columnNames values.
         if i = 0 then None else Some ''Violation of PRIMARY KEY constraint''),
      parseDate = (\<lambda>s. InvalidDate),
      dateToString = (\<lambda>d. ''Thu Jan 01 1970 00:00:00 GMT+0000'')\<rparr>"

section \<open>Properties\<close>

subsection \<open>The retry wrapper\<close>

lemma backoff_Suc: "backoff d (Suc k) = d # backoff (2 * d) k"
proof -
  have "[0..<Suc k] = 0 # map Suc [0..<k]"
    by (simp add: upt_conv_Cons map_Suc_upt del: upt_Suc)
  then show ?thesis
    unfolding backoff_def by (simp add: comp_def del: upt_Suc)
qed

lemma executeWithRetry_loop_success:
  assumes "\<forall>i<k. \<exists>e. operation (a + i) = Inl e"
    and "operation (a + k) = Inr v"
    and "a + k < maxRetries"
  shows "executeWithRetry_loop operation maxRetries d (Suc a) slept =
           \<lparr>outcome = Inr (Some v), delays = slept @ backoff d k, attempts = Suc (a + k)\<rparr>"
  using assms
proof (induction k arbitrary: a d slept)
  case 0
  then show ?case
    by (simp add: executeWithRetry_loop.simps [of _ _ _ "Suc a"] backoff_def)
next
  case (Suc k)
  from Suc.prems(1) obtain e where e: "operation a = Inl e"
    by force
  have "\<forall>i<k. \<exists>e. operation (Suc a + i) = Inl e"
    using Suc.prems(1) by force
  moreover have "operation (Suc a + k) = Inr v"
    using Suc.prems(2) by simp
  moreover have "Suc a + k < maxRetries"
    using Suc.prems(3) by simp
  ultimately have step:
    "executeWithRetry_loop operation maxRetries (d * 2) (Suc (Suc a)) (slept @ [d]) =
       \<lparr>outcome = Inr (Some v), delays = (slept @ [d]) @ backoff (d * 2) k,
        attempts = Suc (Suc a + k)\<rparr>"
    by (rule Suc.IH)
  show ?case
    using Suc.prems(3) e step
    by (simp add: executeWithRetry_loop.simps [of _ _ _ "Suc a"] backoff_Suc mult.commute)
qed

lemma executeWithRetry_loop_exhausted:
  assumes "\<forall>i<k. \<exists>e. operation (a + i) = Inl e"
    and "operation (a + k) = Inl e"
    and "Suc (a + k) = maxRetries"
  shows "executeWithRetry_loop operation maxRetries d (Suc a) slept =
           \<lparr>outcome = Inl e, delays = slept @ backoff d k, attempts = maxRetries\<rparr>"
  using assms
proof (induction k arbitrary: a d slept)
  case 0
  then show ?case
    by (auto simp add: executeWithRetry_loop.simps [of _ _ _ "Suc a"] backoff_def)
next
  case (Suc k)
  from Suc.prems(1) obtain e' where e': "operation a = Inl e'"
    by force
  have "\<forall>i<k. \<exists>e. operation (Suc a + i) = Inl e"
    using Suc.prems(1) by force
  moreover have "operation (Suc a + k) = Inl e"
    using Suc.prems(2) by simp
  moreover have "Suc (Suc a + k) = maxRetries"
    using Suc.prems(3) by simp
  ultimately have step:
    "executeWithRetry_loop operation maxRetries (d * 2) (Suc (Suc a)) (slept @ [d]) =
       \<lparr>outcome = Inl e, delays = (slept @ [d]) @ backoff (d * 2) k, attempts = maxRetries\<rparr>"
    by (rule Suc.IH)
  show ?case
    using Suc.prems(3) e' step
    by (auto simp add: executeWithRetry_loop.simps [of _ _ _ "Suc a"] backoff_Suc mult.commute)
qed

text \<open>
  C3.  An operation that fails exactly \<open>k < maxRetries\<close> times and then succeeds: the
  wrapper returns the success value, has slept exactly \<open>k\<close> times, the delays being
  \<open>delay\<close>, \<open>2 * delay\<close>, \<open>4 * delay\<close>, ..., and the operation was invoked \<open>k + 1\<close> times,
  so never again after its success.  An operation that fails \<open>maxRetries\<close> times: the
  wrapper throws the last error after exactly \<open>maxRetries\<close> invocations (and
  \<open>maxRetries - 1\<close> delays).  The defaults are 3 attempts and 1000 ms.
\<close>

theorem executeWithRetry_backoff:
  "(k < maxRetries \<and> (\<forall>i<k. \<exists>e. operation i = Inl e) \<and> operation k = Inr v \<longrightarrow>
      executeWithRetry operation maxRetries delay =
        \<lparr>outcome = Inr (Some v), delays = backoff delay k, attempts = Suc k\<rparr>)
   \<and> (0 < maxRetries \<and> (\<forall>i<maxRetries. \<exists>e. operation i = Inl e) \<longrightarrow>
      (\<exists>e. operation (maxRetries - 1) = Inl e
         \<and> executeWithRetry operation maxRetries delay =
             \<lparr>outcome = Inl e, delays = backoff delay (maxRetries - 1),
              attempts = maxRetries\<rparr>))
   \<and> executeWithRetry_default operation = executeWithRetry operation 3 1000
   \<and> (\<forall>i<k. backoff delay k ! i = delay * 2 ^ i) \<and> length (backoff delay k) = k"
proof (intro conjI impI)
  assume h: "k < maxRetries \<and> (\<forall>i<k. \<exists>e. operation i = Inl e) \<and> operation k = Inr v"
  then have "executeWithRetry_loop operation maxRetries delay (Suc 0) [] =
      \<lparr>outcome = Inr (Some v), delays = [] @ backoff delay k, attempts = Suc (0 + k)\<rparr>"
    by (intro executeWithRetry_loop_success) auto
  then show "executeWithRetry operation maxRetries delay =
      \<lparr>outcome = Inr (Some v), delays = backoff delay k, attempts = Suc k\<rparr>"
    by (simp add: executeWithRetry_def)
next
  assume h: "0 < maxRetries \<and> (\<forall>i<maxRetries. \<exists>e. operation i = Inl e)"
  then obtain e where e: "operation (maxRetries - 1) = Inl e"
    by (metis diff_less zero_less_one)
  have "executeWithRetry_loop operation maxRetries delay (Suc 0) [] =
      \<lparr>outcome = Inl e, delays = [] @ backoff delay (maxRetries - 1), attempts = maxRetries\<rparr>"
    using h e by (intro executeWithRetry_loop_exhausted) auto
  then show "\<exists>e. operation (maxRetries - 1) = Inl e
         \<and> executeWithRetry operation maxRetries delay =
             \<lparr>outcome = Inl e, delays = backoff delay (maxRetries - 1),
              attempts = maxRetries\<rparr>"
    using e by (simp add: executeWithRetry_def)
next
  show "executeWithRetry_default operation = executeWithRetry operation 3 1000"
    by (simp add: executeWithRetry_default_def)
next
  show "\<forall>i<k. backoff delay k ! i = delay * 2 ^ i"
    by (simp add: backoff_def)
next
  show "length (backoff delay k) = k"
    by (simp add: backoff_def)
qed

theorem executeWithRetry_backoff_witness:
  "executeWithRetry_default (\<lambda>i. if i < 2 then Inl ''deadlock'' else Inr (7 :: nat)) =
     \<lparr>outcome = Inr (Some 7), delays = [1000, 2000], attempts = 3\<rparr>
   \<and> executeWithRetry_default (\<lambda>i. Inl (''timeout '' @ show_nat i) :: nat js_result) =
     \<lparr>outcome = Inl ''timeout 2'', delays = [1000, 2000], attempts = 3\<rparr>"
proof -
  let ?op = "\<lambda>i::nat. if i < 2 then Inl ''deadlock'' else Inr (7 :: nat)"
  let ?bad = "\<lambda>i::nat. Inl (''timeout '' @ show_nat i) :: nat js_result"
  have two: "(i < (2::nat)) = (i = 0 \<or> i = 1)" for i
    by auto
  have three: "(i < (3::nat)) = (i = 0 \<or> i = 1 \<or> i = 2)" for i
    by auto
  have h1: "(2::nat) < 3 \<and> (\<forall>i<2. \<exists>e. ?op i = Inl e) \<and> ?op 2 = Inr 7"
    by simp
  have h2: "(0::nat) < 3 \<and> (\<forall>i<3. \<exists>e. ?bad i = Inl e)"
    by simp
  have b: "backoff 1000 2 = [1000, 2000]"
    by (simp add: backoff_def numeral_2_eq_2)
  have s: "show_nat 2 = ''2''"
    by (simp add: show_nat.simps digit_char_def)
  from executeWithRetry_backoff [of 2 3 ?op 7 1000] h1
  have r1: "executeWithRetry_default ?op =
      \<lparr>outcome = Inr (Some 7), delays = backoff 1000 2, attempts = Suc 2\<rparr>"
    by presburger
  from executeWithRetry_backoff [of 2 3 ?bad 7 1000] h2
  have r2: "\<exists>e. ?bad (3 - 1) = Inl e \<and> executeWithRetry_default ?bad =
      \<lparr>outcome = Inl e, delays = backoff 1000 (3 - 1), attempts = 3\<rparr>"
    by presburger
  from r1 r2 show ?thesis
    by (auto simp: b s)
qed

subsection \<open>The verifiers\<close>



lemma bind_io_Inl [simp]: "bind_io (Inl e, tr) f = (Inl e, tr)"
  by (simp add: bind_io_def)

lemma bind_io_Inr [simp]: "bind_io (Inr v, tr) f = prefix_events tr (f v)"
  by (simp add: bind_io_def prefix_events_def split: prod.splits)

lemma prefix_events_simps [simp]:
  "prefix_events tr (r, tr') = (r, tr @ tr')"
  "fst (prefix_events tr m) = fst m"
  "snd (prefix_events tr m) = tr @ snd m"
  by (simp_all add: prefix_events_def)

lemma bind_io_return [simp]: "bind_io (return_io v) f = f v"
  by (cases "f v") (simp add: return_io_def)

lemma bind_io_throw [simp]: "bind_io (throw_io e) f = throw_io e"
  by (simp add: throw_io_def)

lemma bind_io_InrD:
  assumes "bind_io m f = (Inr r, tr)"
  obtains v tr1 tr2 where "m = (Inr v, tr1)" "f v = (Inr r, tr2)" "tr = tr1 @ tr2"
proof (cases m)
  case (Pair a tr1)
  show ?thesis
  proof (cases a)
    case (Inl e)
    with Pair assms show ?thesis by simp
  next
    case (Inr v)
    with Pair assms have "prefix_events tr1 (f v) = (Inr r, tr)" by simp
    then have "f v = (Inr r, snd (f v))" "tr = tr1 @ snd (f v)"
      by (auto simp: prefix_events_def prod_eq_iff)
    with Pair Inr that show ?thesis by blast
  qed
qed

lemma verificationResult_status:
  "(status (verificationResult t d rc cs) = ''MATCH'') = (issues (verificationResult t d rc cs) = [])"
  "status (verificationResult t d rc cs) \<in> {''MATCH'', ''MISMATCH''}"
  by (simp_all add: verificationResult_def Let_def)

lemma verifyTableData_try_shape:
  assumes "verifyTableData_try env t = (Inr r, tr)"
  obtains d rc cs where "verificationResult t d rc cs = r"
proof -
  from assms show ?thesis
    unfolding verifyTableData_try_def
    by (elim bind_io_InrD) (simp add: return_io_def that)
qed

lemma verifyTableData_try_status:
  assumes "verifyTableData_try env t = (Inr r, tr)"
  shows "(status r = ''MATCH'') = (issues r = [])"
    and "status r \<in> {''MATCH'', ''MISMATCH''}"
  using assms verificationResult_status by (elim verifyTableData_try_shape; force)+

text \<open>
  C5.  The result of \<open>verifyTableData\<close>, whatever the databases answer: its status is
  \<open>MATCH\<close> exactly when its list of issues is empty; the status is one of \<open>MATCH\<close>,
  \<open>MISMATCH\<close> and \<open>ERROR\<close>.
\<close>

theorem verifyTableData_status_invariant:
  "(status (fst (verifyTableData env t)) = ''MATCH'') = (issues (fst (verifyTableData env t)) = [])
   \<and> status (fst (verifyTableData env t)) \<in> {''MATCH'', ''MISMATCH'', ''ERROR''}"
proof (cases "verifyTableData_try env t")
  case (Pair a tr)
  show ?thesis
  proof (cases a)
    case (Inl e)
    with Pair show ?thesis
      by (simp add: verifyTableData_def errorResult_def)
  next
    case (Inr r)
    with Pair verifyTableData_try_status [of env t r tr] show ?thesis
      by (auto simp add: verifyTableData_def)
  qed
qed

theorem verifyTableData_status_invariant_witness:
  "issues (fst (verifyTableData (example_verify_env [col_id, col_name] [col_id, col_name]) ''Orders''))
     = [\<lparr>type = ''DATA_CHECKSUM'',
         message = ''Data checksum mismatch: source 1721, target -408''\<rparr>]
   \<and> status (fst (verifyTableData (example_verify_env [col_id, col_name] [col_id, col_name]) ''Orders''))
     \<noteq> ''MATCH''"
proof -
  let ?r = "fst (verifyTableData (example_verify_env [col_id, col_name] [col_id, col_name]) ''Orders'')"
  have found: "issues ?r = [\<lparr>type = ''DATA_CHECKSUM'',
         message = ''Data checksum mismatch: source 1721, target -408''\<rparr>]"
    by code_simp
  then have "issues ?r \<noteq> []"
    by simp
  with verifyTableData_status_invariant
    [of "example_verify_env [col_id, col_name] [col_id, col_name]" "''Orders''"]
  have "status ?r \<noteq> ''MATCH''"
    by blast
  with found show ?thesis
    by blast
qed


subsection \<open>Evaluation of the verification steps\<close>

lemma getTableSchema_sanitized:
  "sanitizeTableName t = Inr s \<Longrightarrow>
     getTableSchema pool cat t = (cat s, [GetTableSchema pool s])"
  by (simp add: getTableSchema_def call_io_def)

lemma getTableSchema_rejected:
  "sanitizeTableName t = Inl m \<Longrightarrow> getTableSchema pool cat t = (Inl m, [])"
  by (simp add: getTableSchema_def throw_io_def)

lemma compareTableStructure_eval:
  assumes "sanitizeTableName t = Inr s"
  shows "sc s = Inl m \<Longrightarrow> compareTableStructure sc tc t = (Inl m, [GetTableSchema Source s])"
    and "sc s = Inr ss \<Longrightarrow> tc s = Inl m \<Longrightarrow>
           compareTableStructure sc tc t = (Inl m, [GetTableSchema Source s, GetTableSchema Target s])"
    and "sc s = Inr ss \<Longrightarrow> tc s = Inr ts \<Longrightarrow>
           compareTableStructure sc tc t =
             (Inr (structureDifferences ss ts), [GetTableSchema Source s, GetTableSchema Target s])"
  using assms
  by (simp_all add: compareTableStructure_def getTableSchema_sanitized return_io_def)

lemma compareTableRowCounts_eval:
  "compareTableRowCounts (Inl m) b t = (Inl m, [CountRows Source t])"
  "compareTableRowCounts (Inr sc) (Inl m) t = (Inl m, [CountRows Source t, CountRows Target t])"
  "compareTableRowCounts (Inr sc) (Inr tc) t =
     (Inr \<lparr>sourceCount = sc, targetCount = tc, match = (sc = tc)\<rparr>,
      [CountRows Source t, CountRows Target t])"
  by (simp_all add: compareTableRowCounts_def call_io_def return_io_def)

lemma calculateTableChecksum_eval:
  "checksumColumnList schema = [] \<Longrightarrow>
     calculateTableChecksum pool agg t schema =
       (Inr \<lparr>checksum = 0, checksumRowCount = 0\<rparr>, [CalculateTableChecksum pool t])"
  "checksumColumnList schema \<noteq> [] \<Longrightarrow> agg (checksumColumnList schema) = Inl m \<Longrightarrow>
     calculateTableChecksum pool agg t schema =
       (Inl m, [CalculateTableChecksum pool t, ChecksumQuery pool t (checksumColumnList schema)])"
  "checksumColumnList schema \<noteq> [] \<Longrightarrow> agg (checksumColumnList schema) = Inr (n, cs) \<Longrightarrow>
     calculateTableChecksum pool agg t schema =
       (Inr \<lparr>checksum = (case cs of None \<Rightarrow> 0 | Some c \<Rightarrow> c), checksumRowCount = n\<rparr>,
        [CalculateTableChecksum pool t, ChecksumQuery pool t (checksumColumnList schema)])"
  by (simp_all add: calculateTableChecksum_def call_io_def return_io_def Let_def)

lemma verifyTableData_caught:
  "verifyTableData_try env t = (Inl m, tr) \<Longrightarrow> verifyTableData env t = (errorResult t m, tr)"
  by (simp add: verifyTableData_def)

text \<open>
  C7.  An exception at any statement of the verification is caught: when the table name
  is rejected, or the first statement that fails is the read of the source schema, of
  the target schema, the source count, the target count, the second read of the source
  schema, the source aggregate or the target aggregate, \<open>verifyTableData\<close> returns the
  result with status \<open>ERROR\<close>, row count 0 and the single issue of type \<open>ERROR\<close> that
  carries the message.
\<close>

theorem verifyTableData_catches_errors:
  "(sanitizeTableName t = Inl m \<longrightarrow> fst (verifyTableData env t) = errorResult t m)
   \<and> (sanitizeTableName t = Inr s \<longrightarrow>
        (structureSourceCatalog env s = Inl m \<longrightarrow> fst (verifyTableData env t) = errorResult t m)
      \<and> (structureSourceCatalog env s = Inr ss \<and> structureTargetCatalog env s = Inl m \<longrightarrow>
           fst (verifyTableData env t) = errorResult t m)
      \<and> (structureSourceCatalog env s = Inr ss \<and> structureTargetCatalog env s = Inr ts \<longrightarrow>
           (sourceCountResult env = Inl m \<longrightarrow> fst (verifyTableData env t) = errorResult t m)
         \<and> (sourceCountResult env = Inr sc \<and> targetCountResult env = Inl m \<longrightarrow>
              fst (verifyTableData env t) = errorResult t m)
         \<and> (sourceCountResult env = Inr sc \<and> targetCountResult env = Inr tc
              \<and> 0 < sc \<and> structureDifferences ss ts = [] \<longrightarrow>
              (checksumSourceCatalog env s = Inl m \<longrightarrow>
                 fst (verifyTableData env t) = errorResult t m)
            \<and> (checksumSourceCatalog env s = Inr cs \<and> checksumColumnList cs \<noteq> [] \<longrightarrow>
                 (sourceAggregate env (checksumColumnList cs) = Inl m \<longrightarrow>
                    fst (verifyTableData env t) = errorResult t m)
               \<and> (sourceAggregate env (checksumColumnList cs) = Inr a
                    \<and> targetAggregate env (checksumColumnList cs) = Inl m \<longrightarrow>
                    fst (verifyTableData env t) = errorResult t m)))))"
proof -
  have caught: "fst (verifyTableData_try env t) = Inl m \<Longrightarrow>
      fst (verifyTableData env t) = errorResult t m"
    by (cases "verifyTableData_try env t") (simp add: verifyTableData_def)
  show ?thesis
    apply (intro conjI impI caught)
            apply (simp add: verifyTableData_try_def compareTableStructure_def
                getTableSchema_rejected)
           apply (simp add: verifyTableData_try_def compareTableStructure_eval)
          apply (simp add: verifyTableData_try_def compareTableStructure_eval)
         apply (simp add: verifyTableData_try_def compareTableStructure_eval
                compareTableRowCounts_eval)
        apply (simp add: verifyTableData_try_def compareTableStructure_eval
                compareTableRowCounts_eval)
       apply (simp add: verifyTableData_try_def compareTableStructure_eval
                compareTableRowCounts_eval checksumStep_def getTableSchema_sanitized)
      apply (cases a)
      apply (simp add: verifyTableData_try_def compareTableStructure_eval
                compareTableRowCounts_eval checksumStep_def getTableSchema_sanitized
                calculateTableChecksum_eval)
     apply (cases a)
     apply (simp add: verifyTableData_try_def compareTableStructure_eval
                compareTableRowCounts_eval checksumStep_def getTableSchema_sanitized
                calculateTableChecksum_eval)
    done
qed

theorem verifyTableData_catches_errors_witness:
  "fst (verifyTableData
          ((example_verify_env [col_id, col_name] [col_id, col_name])
             \<lparr>targetCountResult := Inl ''Timeout expired''\<rparr>) ''Orders'')
     = \<lparr>table = ''Orders'', status = ''ERROR'', rowCount = 0,
        issues = [\<lparr>type = ''ERROR'', message = ''Timeout expired''\<rparr>]\<rparr>"
proof -
  let ?env = "(example_verify_env [col_id, col_name] [col_id, col_name])
             \<lparr>targetCountResult := Inl ''Timeout expired''\<rparr>"
  have h: "sanitizeTableName ''Orders'' = Inr ''Orders''"
    "structureSourceCatalog ?env ''Orders'' = Inr [col_id, col_name]"
    "structureTargetCatalog ?env ''Orders'' = Inr [col_id, col_name]"
    "sourceCountResult ?env = Inr 5"
    "targetCountResult ?env = Inl ''Timeout expired''"
    by code_simp+
  from verifyTableData_catches_errors
    [where t = "''Orders''" and s = "''Orders''" and env = ?env and m = "''Timeout expired''"
       and ss = "[col_id, col_name]" and ts = "[col_id, col_name]" and sc = 5] h
  have "fst (verifyTableData ?env ''Orders'') = errorResult ''Orders'' ''Timeout expired''"
    by blast
  then show ?thesis
    by (simp add: errorResult_def)
qed


lemma join_Nil_iff: "(\<forall>x\<in>set xs. x \<noteq> []) \<Longrightarrow> (join sep xs = []) = (xs = [])"
  by (induction sep xs rule: join.induct) auto

lemma checksumColumn_nonempty: "checksumColumn col \<noteq> []"
  by (simp add: checksumColumn_def)

lemma checksumColumnList_empty_iff:
  "(checksumColumnList schema = []) = list_all isVersionColumn schema"
proof -
  have "(checksumColumnList schema = []) = (filter (\<lambda>col. \<not> isVersionColumn col) schema = [])"
    unfolding checksumColumnList_def
    by (subst join_Nil_iff) (auto simp: checksumColumn_nonempty)
  then show ?thesis
    by (simp add: filter_empty_conv list_all_iff)
qed

lemma checksumStep_version_only:
  assumes "\<And>s cs. checksumSourceCatalog env s = Inr cs \<Longrightarrow> list_all isVersionColumn cs"
  shows "fst (checksumStep env t) = Inr [] \<or> (\<exists>m. fst (checksumStep env t) = Inl m)"
    and "ChecksumQuery p t' cl \<notin> set (snd (checksumStep env t))"
proof -
  show "fst (checksumStep env t) = Inr [] \<or> (\<exists>m. fst (checksumStep env t) = Inl m)"
  proof (cases "sanitizeTableName t")
    case (Inl m)
    then show ?thesis
      by (simp add: checksumStep_def getTableSchema_rejected)
  next
    case (Inr s)
    show ?thesis
    proof (cases "checksumSourceCatalog env s")
      case (Inl m)
      with Inr show ?thesis
        by (simp add: checksumStep_def getTableSchema_sanitized)
    next
      case inner: (Inr cs)
      then have "checksumColumnList cs = []"
        using assms by (simp add: checksumColumnList_empty_iff)
      with Inr inner show ?thesis
        by (simp add: checksumStep_def getTableSchema_sanitized calculateTableChecksum_eval
            return_io_def)
    qed
  qed
  show "ChecksumQuery p t' cl \<notin> set (snd (checksumStep env t))"
  proof (cases "sanitizeTableName t")
    case (Inl m)
    then show ?thesis
      by (simp add: checksumStep_def getTableSchema_rejected)
  next
    case (Inr s)
    show ?thesis
    proof (cases "checksumSourceCatalog env s")
      case (Inl m)
      with Inr show ?thesis
        by (simp add: checksumStep_def getTableSchema_sanitized)
    next
      case inner: (Inr cs)
      then have "checksumColumnList cs = []"
        using assms by (simp add: checksumColumnList_empty_iff)
      with Inr inner show ?thesis
        by (simp add: checksumStep_def getTableSchema_sanitized calculateTableChecksum_eval
            return_io_def)
    qed
  qed
qed

lemma compareTableStructure_events:
  "ev \<in> set (snd (compareTableStructure sc tc t)) \<Longrightarrow> \<exists>p s. ev = GetTableSchema p s"
  unfolding compareTableStructure_def getTableSchema_def
  by (auto simp: call_io_def throw_io_def return_io_def bind_io_def
      split: sum.splits prod.splits)

lemma compareTableRowCounts_events:
  "ev \<in> set (snd (compareTableRowCounts a b t)) \<Longrightarrow> \<exists>p. ev = CountRows p t"
  unfolding compareTableRowCounts_def
  by (auto simp: call_io_def throw_io_def return_io_def bind_io_def
      split: sum.splits prod.splits)

lemma bind_io_events:
  "ev \<in> set (snd (bind_io m f)) \<Longrightarrow>
     ev \<in> set (snd m) \<or> (\<exists>v. fst m = Inr v \<and> ev \<in> set (snd (f v)))"
  by (cases m; cases "fst m") (auto simp: bind_io_def split: prod.splits)

lemma bind_io_fst_Inr:
  "fst (bind_io m f) = Inr r \<Longrightarrow> \<exists>v. fst m = Inr v \<and> fst (f v) = Inr r"
  by (cases m; cases "fst m") (auto simp: bind_io_def split: prod.splits)

lemma verifyTableData_try_events:
  assumes "ev \<in> set (snd (verifyTableData_try env t))"
  shows "(\<exists>p s. ev = GetTableSchema p s) \<or> (\<exists>p. ev = CountRows p t)
     \<or> ((\<exists>tr0. compareTableStructure (structureSourceCatalog env) (structureTargetCatalog env) t
                  = (Inr [], tr0))
         \<and> (\<exists>sc. sourceCountResult env = Inr sc \<and> 0 < sc)
         \<and> ev \<in> set (snd (checksumStep env t)))"
proof -
  let ?cmp = "compareTableStructure (structureSourceCatalog env) (structureTargetCatalog env) t"
  let ?cnt = "compareTableRowCounts (sourceCountResult env) (targetCountResult env) t"
  from assms [unfolded verifyTableData_try_def]
  consider (a) "ev \<in> set (snd ?cmp)"
    | (b) d where "fst ?cmp = Inr d" "ev \<in> set (snd ?cnt)"
    | (c) d rc where "fst ?cmp = Inr d" "fst ?cnt = Inr rc"
        "ev \<in> set (snd (if sourceCount rc > 0 \<and> length d = 0 then checksumStep env t
                         else return_io []))"
    by (auto dest!: bind_io_events simp: return_io_def)
  then show ?thesis
  proof cases
    case a
    then show ?thesis using compareTableStructure_events by blast
  next
    case b
    then show ?thesis using compareTableRowCounts_events by blast
  next
    case c
    from c(3) have cond: "sourceCount rc > 0" "d = []" and ev: "ev \<in> set (snd (checksumStep env t))"
      by (auto simp: return_io_def split: if_splits)
    from c(1) cond have "?cmp = (Inr [], snd ?cmp)"
      by (simp add: prod_eq_iff)
    moreover from c(2) cond(1) have "\<exists>sc. sourceCountResult env = Inr sc \<and> 0 < sc"
      unfolding compareTableRowCounts_def
      by (cases "sourceCountResult env"; cases "targetCountResult env")
         (auto simp: call_io_def return_io_def)
    ultimately show ?thesis using ev by blast
  qed
qed


text \<open>
  C6.  When the structural comparison returns at least one difference, the only
  statements of the verification are the schema reads and the row counts (no checksum is
  computed), and when both counts are read the issues are one \<open>STRUCTURE\<close> issue per
  difference, in order, followed by the \<open>ROW_COUNT\<close> issue if the counts differ.  In any
  verification, \<open>calculateTableChecksum\<close> is called only after a structural comparison
  without difference and a source row count above zero.
\<close>

theorem verifyTableData_structure_skips_checksum:
  "(compareTableStructure (structureSourceCatalog env) (structureTargetCatalog env) t
      = (Inr diffs, tr0) \<and> diffs \<noteq> [] \<longrightarrow>
       (\<forall>ev \<in> set (snd (verifyTableData env t)).
          (\<exists>p s. ev = GetTableSchema p s) \<or> (\<exists>p. ev = CountRows p t))
     \<and> (sourceCountResult env = Inr sc \<and> targetCountResult env = Inr tc \<longrightarrow>
          issues (fst (verifyTableData env t)) =
            map (\<lambda>d. \<lparr>type = ''STRUCTURE'', message = d\<rparr>) diffs
            @ (if sc = tc then []
               else [\<lparr>type = ''ROW_COUNT'',
                      message = ''Row count mismatch: source '' @ show_nat sc
                        @ '', target '' @ show_nat tc\<rparr>])
          \<and> status (fst (verifyTableData env t)) = ''MISMATCH''))
   \<and> (CalculateTableChecksum p t' \<in> set (snd (verifyTableData env t)) \<longrightarrow>
        (\<exists>tr0. compareTableStructure (structureSourceCatalog env) (structureTargetCatalog env) t
                 = (Inr [], tr0))
        \<and> (\<exists>sc. sourceCountResult env = Inr sc \<and> 0 < sc))"
proof -
  have events: "snd (verifyTableData env t) = snd (verifyTableData_try env t)"
    by (cases "verifyTableData_try env t"; cases "fst (verifyTableData_try env t)")
       (auto simp: verifyTableData_def)
  show ?thesis
  proof (intro conjI impI ballI)
    fix ev
    assume cmp: "compareTableStructure (structureSourceCatalog env) (structureTargetCatalog env) t
        = (Inr diffs, tr0) \<and> diffs \<noteq> []"
      and ev: "ev \<in> set (snd (verifyTableData env t))"
    from ev verifyTableData_try_events [of ev env t] cmp
    show "(\<exists>p s. ev = GetTableSchema p s) \<or> (\<exists>p. ev = CountRows p t)"
      by (auto simp: events)
  next
    assume cmp: "compareTableStructure (structureSourceCatalog env) (structureTargetCatalog env) t
        = (Inr diffs, tr0) \<and> diffs \<noteq> []"
      and cnt: "sourceCountResult env = Inr sc \<and> targetCountResult env = Inr tc"
    then have "verifyTableData_try env t =
        (Inr (verificationResult t diffs \<lparr>sourceCount = sc, targetCount = tc, match = (sc = tc)\<rparr> []),
         tr0 @ [CountRows Source t, CountRows Target t])"
      by (simp add: verifyTableData_try_def compareTableRowCounts_eval return_io_def)
    then have r: "fst (verifyTableData env t) =
        verificationResult t diffs \<lparr>sourceCount = sc, targetCount = tc, match = (sc = tc)\<rparr> []"
      by (simp add: verifyTableData_def)
    from cmp show "issues (fst (verifyTableData env t)) =
            map (\<lambda>d. \<lparr>type = ''STRUCTURE'', message = d\<rparr>) diffs
            @ (if sc = tc then []
               else [\<lparr>type = ''ROW_COUNT'',
                      message = ''Row count mismatch: source '' @ show_nat sc
                        @ '', target '' @ show_nat tc\<rparr>])"
      by (simp add: r verificationResult_def Let_def)
    from cmp show "status (fst (verifyTableData env t)) = ''MISMATCH''"
      by (simp add: r verificationResult_def Let_def)
  next
    assume "CalculateTableChecksum p t' \<in> set (snd (verifyTableData env t))"
    with verifyTableData_try_events [of "CalculateTableChecksum p t'" env t]
    have "(\<exists>tr0. compareTableStructure (structureSourceCatalog env) (structureTargetCatalog env) t
                  = (Inr [], tr0))
         \<and> (\<exists>sc. sourceCountResult env = Inr sc \<and> 0 < sc)"
      by (auto simp: events)
    then show "\<exists>tr0. compareTableStructure (structureSourceCatalog env) (structureTargetCatalog env) t
                  = (Inr [], tr0)"
      and "\<exists>sc. sourceCountResult env = Inr sc \<and> 0 < sc"
      by blast+
  qed
qed

theorem verifyTableData_structure_skips_checksum_witness:
  "issues (fst (verifyTableData
                  ((example_verify_env [col_id, col_name] [col_id])
                     \<lparr>targetCountResult := Inr 4\<rparr>) ''Orders''))
     = [\<lparr>type = ''STRUCTURE'', message = ''Column count mismatch: source 2, target 1''\<rparr>,
        \<lparr>type = ''STRUCTURE'', message = ''Missing column in target: name''\<rparr>,
        \<lparr>type = ''ROW_COUNT'', message = ''Row count mismatch: source 5, target 4''\<rparr>]
   \<and> CalculateTableChecksum Source ''Orders''
       \<notin> set (snd (verifyTableData
                  ((example_verify_env [col_id, col_name] [col_id])
                     \<lparr>targetCountResult := Inr 4\<rparr>) ''Orders''))"
proof -
  let ?env = "(example_verify_env [col_id, col_name] [col_id]) \<lparr>targetCountResult := Inr 4\<rparr>"
  let ?diffs = "[''Column count mismatch: source 2, target 1'', ''Missing column in target: name'']"
  let ?tr0 = "[GetTableSchema Source ''Orders'', GetTableSchema Target ''Orders'']"
  have cmp: "compareTableStructure (structureSourceCatalog ?env) (structureTargetCatalog ?env)
      ''Orders'' = (Inr ?diffs, ?tr0) \<and> ?diffs \<noteq> []"
    by code_simp
  have cnt: "sourceCountResult ?env = Inr 5 \<and> targetCountResult ?env = Inr 4"
    by code_simp
  have shown: "show_nat 5 = ''5''" "show_nat 4 = ''4''"
    by code_simp+
  note inst = verifyTableData_structure_skips_checksum
    [where env = ?env and t = "''Orders''" and diffs = ?diffs and ?tr0.0 = ?tr0
       and sc = 5 and tc = 4 and p = Source and t' = "''Orders''"]
  from inst cmp cnt have "issues (fst (verifyTableData ?env ''Orders'')) =
      map (\<lambda>d. \<lparr>type = ''STRUCTURE'', message = d\<rparr>) ?diffs
      @ (if (5::nat) = 4 then []
         else [\<lparr>type = ''ROW_COUNT'',
                message = ''Row count mismatch: source '' @ show_nat 5
                  @ '', target '' @ show_nat 4\<rparr>])"
    by blast
  then have a: "issues (fst (verifyTableData ?env ''Orders'')) =
     [\<lparr>type = ''STRUCTURE'', message = ''Column count mismatch: source 2, target 1''\<rparr>,
        \<lparr>type = ''STRUCTURE'', message = ''Missing column in target: name''\<rparr>,
        \<lparr>type = ''ROW_COUNT'', message = ''Row count mismatch: source 5, target 4''\<rparr>]"
    by (simp add: shown)
  from inst cmp have "\<forall>ev \<in> set (snd (verifyTableData ?env ''Orders'')).
          (\<exists>p s. ev = GetTableSchema p s) \<or> (\<exists>p. ev = CountRows p ''Orders'')"
    by blast
  then have b: "CalculateTableChecksum Source ''Orders''
       \<notin> set (snd (verifyTableData ?env ''Orders''))"
    by blast
  from a b show ?thesis
    by blast
qed

lemma verifyTableData_try_InrD:
  assumes "verifyTableData_try env t = (Inr r, tr)"
  obtains d rc cs where
    "fst (if sourceCount rc > 0 \<and> length d = 0 then checksumStep env t else return_io [])
       = Inr cs"
    and "r = verificationResult t d rc cs"
proof -
  from assms [unfolded verifyTableData_try_def] obtain d tr1 tr1' where
    rest: "bind_io (compareTableRowCounts (sourceCountResult env) (targetCountResult env) t)
       (\<lambda>rowCountComparison.
          bind_io (if sourceCount rowCountComparison > 0 \<and> length d = 0
                   then checksumStep env t else return_io [])
            (\<lambda>checksumIssues.
               return_io (verificationResult t d rowCountComparison checksumIssues)))
       = (Inr r, tr1')"
    by (rule bind_io_InrD)
  from rest obtain rc tr2 tr2' where
    rest': "bind_io (if sourceCount rc > 0 \<and> length d = 0
                   then checksumStep env t else return_io [])
            (\<lambda>checksumIssues. return_io (verificationResult t d rc checksumIssues))
       = (Inr r, tr2')"
    by (rule bind_io_InrD)
  from rest' obtain cs tr3 tr3' where
    step: "(if sourceCount rc > 0 \<and> length d = 0 then checksumStep env t else return_io [])
       = (Inr cs, tr3)"
    and ret: "return_io (verificationResult t d rc cs) = (Inr r, tr3')"
    by (rule bind_io_InrD)
  from step have "fst (if sourceCount rc > 0 \<and> length d = 0 then checksumStep env t
      else return_io []) = Inr cs"
    by simp
  moreover from ret have "r = verificationResult t d rc cs"
    by (simp add: return_io_def)
  ultimately show ?thesis
    by (rule that)
qed

text \<open>
  C10.  For a schema whose columns all have the type \<open>timestamp\<close> or \<open>rowversion\<close>,
  \<open>calculateTableChecksum\<close> returns checksum 0 and row count 0 and sends no statement.
  When the schema the checksum step reads is of that kind, the result of
  \<open>verifyTableData\<close> has no \<open>DATA_CHECKSUM\<close> issue and no aggregate query is sent,
  whatever the aggregates of the two tables would be.
\<close>

theorem verifyTableData_version_only_schema:
  "(list_all isVersionColumn schema \<longrightarrow>
      calculateTableChecksum pool aggregate t schema =
        (Inr \<lparr>checksum = 0, checksumRowCount = 0\<rparr>, [CalculateTableChecksum pool t]))
   \<and> ((\<forall>s cs. checksumSourceCatalog env s = Inr cs \<longrightarrow> list_all isVersionColumn cs) \<longrightarrow>
        (\<forall>i \<in> set (issues (fst (verifyTableData env t))). type i \<noteq> ''DATA_CHECKSUM'')
        \<and> (\<forall>p cl. ChecksumQuery p t cl \<notin> set (snd (verifyTableData env t))))"
proof (intro conjI impI ballI allI)
  assume "list_all isVersionColumn schema"
  then show "calculateTableChecksum pool aggregate t schema =
        (Inr \<lparr>checksum = 0, checksumRowCount = 0\<rparr>, [CalculateTableChecksum pool t])"
    by (simp add: calculateTableChecksum_eval checksumColumnList_empty_iff)
next
  fix i
  assume cat: "\<forall>s cs. checksumSourceCatalog env s = Inr cs \<longrightarrow> list_all isVersionColumn cs"
    and i: "i \<in> set (issues (fst (verifyTableData env t)))"
  show "type i \<noteq> ''DATA_CHECKSUM''"
  proof (cases "verifyTableData_try env t")
    case (Pair a tr)
    show ?thesis
    proof (cases a)
      case (Inl m)
      with Pair i show ?thesis
        by (simp add: verifyTableData_def errorResult_def)
    next
      case (Inr r)
      with Pair have r: "fst (verifyTableData env t) = r"
        by (simp add: verifyTableData_def)
      from Pair Inr have "verifyTableData_try env t = (Inr r, tr)"
        by simp
      then obtain d rc cs where
        step: "fst (if sourceCount rc > 0 \<and> length d = 0 then checksumStep env t
                    else return_io []) = Inr cs"
        and res: "r = verificationResult t d rc cs"
        by (rule verifyTableData_try_InrD)
      from step checksumStep_version_only(1) [of env t] cat have "cs = []"
        by (auto simp: return_io_def split: if_splits)
      with i r res show ?thesis
        by (auto simp: verificationResult_def Let_def split: if_splits)
    qed
  qed
next
  fix p cl
  assume cat: "\<forall>s cs. checksumSourceCatalog env s = Inr cs \<longrightarrow> list_all isVersionColumn cs"
  have events: "snd (verifyTableData env t) = snd (verifyTableData_try env t)"
    by (cases "verifyTableData_try env t"; cases "fst (verifyTableData_try env t)")
       (auto simp: verifyTableData_def)
  show "ChecksumQuery p t cl \<notin> set (snd (verifyTableData env t))"
  proof
    assume "ChecksumQuery p t cl \<in> set (snd (verifyTableData env t))"
    with verifyTableData_try_events [of "ChecksumQuery p t cl" env t]
    have "ChecksumQuery p t cl \<in> set (snd (checksumStep env t))"
      by (auto simp: events)
    with checksumStep_version_only(2) [of env p t cl] cat show False
      by blast
  qed
qed

theorem verifyTableData_version_only_schema_witness:
  "calculateTableChecksum Source (\<lambda>columnList. Inr (5, Some 1721)) ''Ledger'' [col_ver]
     = (Inr \<lparr>checksum = 0, checksumRowCount = 0\<rparr>, [CalculateTableChecksum Source ''Ledger''])
   \<and> \<lparr>type = ''DATA_CHECKSUM'', message = ''Data checksum mismatch: source 1721, target -408''\<rparr>
       \<notin> set (issues (fst (verifyTableData (example_verify_env [col_ver] [col_ver]) ''Ledger'')))
   \<and> ChecksumQuery Target ''Ledger'' []
       \<notin> set (snd (verifyTableData (example_verify_env [col_ver] [col_ver]) ''Ledger''))"
proof -
  let ?env = "example_verify_env [col_ver] [col_ver]"
  have v: "list_all isVersionColumn [col_ver]"
    by code_simp
  have cat: "\<forall>s cs. checksumSourceCatalog ?env s = Inr cs \<longrightarrow> list_all isVersionColumn cs"
    using v by (simp add: example_verify_env_def)
  note inst = verifyTableData_version_only_schema
    [where schema = "[col_ver]" and pool = Source and aggregate = "\<lambda>columnList. Inr (5, Some 1721)"
       and t = "''Ledger''" and env = ?env]
  from inst v have a: "calculateTableChecksum Source (\<lambda>columnList. Inr (5, Some 1721)) ''Ledger''
      [col_ver]
     = (Inr \<lparr>checksum = 0, checksumRowCount = 0\<rparr>, [CalculateTableChecksum Source ''Ledger''])"
    by blast
  from inst cat have b:
    "\<forall>i \<in> set (issues (fst (verifyTableData ?env ''Ledger''))). type i \<noteq> ''DATA_CHECKSUM''"
    and c: "\<forall>p cl. ChecksumQuery p ''Ledger'' cl \<notin> set (snd (verifyTableData ?env ''Ledger''))"
    by blast+
  from b have b': "\<lparr>type = ''DATA_CHECKSUM'',
      message = ''Data checksum mismatch: source 1721, target -408''\<rparr>
       \<notin> set (issues (fst (verifyTableData ?env ''Ledger'')))"
    by force
  from a b' c show ?thesis
    by blast
qed

subsection \<open>The structural verifier\<close>


lemma map_set_fresh: "k \<notin> fst ` set m \<Longrightarrow> map_set m k v = m @ [(k, v)]"
  by (induction m) auto

lemma foldl_map_set_distinct:
  "distinct (map fst (m @ es)) \<Longrightarrow> foldl (\<lambda>m (k, v). map_set m k v) m es = m @ es"
proof (induction es arbitrary: m)
  case Nil
  then show ?case by simp
next
  case (Cons e es)
  obtain k v where e: "e = (k, v)" by (cases e)
  from Cons.prems e have fresh: "k \<notin> fst ` set m"
    by auto
  from Cons.prems e have "distinct (map fst ((m @ [(k, v)]) @ es))"
    by auto
  then have "foldl (\<lambda>m (k, v). map_set m k v) (m @ [(k, v)]) es = (m @ [(k, v)]) @ es"
    by (rule Cons.IH)
  with fresh e show ?case
    by (simp add: map_set_fresh)
qed

lemma new_Map_distinct: "distinct (map fst es) \<Longrightarrow> new_Map es = es"
  using foldl_map_set_distinct [of "[]" es] by (simp add: new_Map_def)

lemma map_fst_column_entries [simp]: "map fst (column_entries cols) = map COLUMN_NAME cols"
  by (simp add: column_entries_def comp_def)

lemma fst_set_column_entries [simp]: "fst ` set (column_entries cols) = COLUMN_NAME ` set cols"
  by (auto simp: column_entries_def image_iff)

lemma concat_only_nth:
  assumes "i < length xss" and "\<And>j. j < length xss \<Longrightarrow> j \<noteq> i \<Longrightarrow> xss ! j = []"
  shows "concat xss = xss ! i"
proof -
  have split: "xss = take i xss @ xss ! i # drop (Suc i) xss"
    using assms(1) by (rule id_take_nth_drop)
  have before: "concat (take i xss) = []"
    using assms by (auto simp: concat_eq_Nil_conv in_set_conv_nth)
  have after: "concat (drop (Suc i) xss) = []"
    using assms by (auto simp: concat_eq_Nil_conv in_set_conv_nth)
  have "concat xss = concat (take i xss @ xss ! i # drop (Suc i) xss)"
    by (rule arg_cong [OF split])
  also have "\<dots> = concat (take i xss) @ xss ! i @ concat (drop (Suc i) xss)"
    by simp
  also have "\<dots> = xss ! i"
    by (simp only: before after append_Nil append_Nil2)
  finally show ?thesis .
qed

lemma structureDifferences_aligned:
  assumes names: "distinct (map COLUMN_NAME src)"
    and aligned: "map COLUMN_NAME aligned = map COLUMN_NAME src"
    and perm: "mset tgt = mset aligned"
  shows "structureDifferences src tgt =
     concat (map (\<lambda>(c, d). columnDifferences (COLUMN_NAME c) c d) (zip src aligned))"
proof -
  have len: "length aligned = length src"
    using aligned by (metis length_map)
  have len_tgt: "length tgt = length src"
    using perm len by (metis size_mset)
  have names_aligned: "distinct (map COLUMN_NAME aligned)"
    using names aligned by simp
  have "mset (map COLUMN_NAME tgt) = mset (map COLUMN_NAME aligned)"
    using perm by (metis mset_map)
  then have names_tgt: "distinct (map COLUMN_NAME tgt)"
    using names_aligned by (metis mset_eq_imp_distinct_iff)
  have src_map: "new_Map (column_entries src) = column_entries src"
    using names by (simp add: new_Map_distinct)
  have tgt_map: "new_Map (column_entries tgt) = column_entries tgt"
    using names_tgt by (simp add: new_Map_distinct)
  have "set (column_entries tgt) = set (column_entries aligned)"
    using perm by (metis column_entries_def mset_eq_setD set_map)
  then have lookup: "map_of (column_entries tgt) = map_of (column_entries aligned)"
    using names_tgt names_aligned by (simp add: map_of_inject_set)
  have found: "map_of (column_entries aligned) (COLUMN_NAME (src ! j)) = Some (aligned ! j)"
    if "j < length src" for j
  proof -
    have "COLUMN_NAME (aligned ! j) = COLUMN_NAME (src ! j)"
      using that len aligned by (metis nth_map)
    moreover have "(COLUMN_NAME (aligned ! j), aligned ! j) \<in> set (column_entries aligned)"
      using that len by (auto simp: column_entries_def)
    ultimately show ?thesis
      using names_aligned by simp
  qed
  have per_column: "map (compareColumn (column_entries tgt)) (column_entries src) =
      map (\<lambda>(c, d). columnDifferences (COLUMN_NAME c) c d) (zip src aligned)"
  proof (rule nth_equalityI)
    show "length (map (compareColumn (column_entries tgt)) (column_entries src)) =
        length (map (\<lambda>(c, d). columnDifferences (COLUMN_NAME c) c d) (zip src aligned))"
      using len by (simp add: column_entries_def)
  next
    fix j
    assume "j < length (map (compareColumn (column_entries tgt)) (column_entries src))"
    then have j: "j < length src"
      by (simp add: column_entries_def)
    with found [OF j] lookup len show
      "map (compareColumn (column_entries tgt)) (column_entries src) ! j =
       map (\<lambda>(c, d). columnDifferences (COLUMN_NAME c) c d) (zip src aligned) ! j"
      by (simp add: column_entries_def compareColumn_def map_get_def)
  qed
  have "set (map COLUMN_NAME tgt) = set (map COLUMN_NAME src)"
    using perm aligned by (metis mset_eq_setD mset_map)
  then have no_extra: "\<And>n. n \<in> set (map fst (column_entries tgt)) \<Longrightarrow>
      map_has (column_entries src) n"
    by (simp add: map_has_def map_of_eq_None_iff)
  then have extras: "concat (map (\<lambda>colName. if \<not> map_has (column_entries src) colName
        then [''Extra column in target: '' @ colName] else [])
      (map fst (column_entries tgt))) = []"
    by (simp add: concat_eq_Nil_conv)
  show ?thesis
    unfolding structureDifferences_def Let_def
    using src_map tgt_map len_tgt per_column extras
    by (simp add: column_entries_def)
qed


lemma columnDifferences_same: "same_column c d \<Longrightarrow> columnDifferences n c d = []"
  by (simp add: same_column_def columnDifferences_def)

lemma list_all2_same_column_names:
  "list_all2 same_column src aligned \<Longrightarrow> map COLUMN_NAME aligned = map COLUMN_NAME src"
  by (induction rule: list_all2_induct) (auto simp: same_column_def)

text \<open>
  C4.  Column names are unique within a table.  When the target's columns are the
  source's columns in some order, each with the same name, data type, nullability and
  character length as its source column, \<open>compareTableStructure\<close> finds no difference.
  When the target is such a reordering in which the character length of one column was
  changed, it finds exactly one difference, the length mismatch of that column with
  both lengths.  The differences returned are those of the two schemas read.
\<close>

theorem compareTableStructure_same_columns:
  "(distinct (map COLUMN_NAME sourceSchema) \<and> list_all2 same_column sourceSchema aligned
      \<and> mset targetSchema = mset aligned \<longrightarrow>
      structureDifferences sourceSchema targetSchema = [])
   \<and> (distinct (map COLUMN_NAME sourceSchema) \<and> list_all2 same_column sourceSchema aligned
      \<and> i < length sourceSchema \<and> len \<noteq> CHARACTER_MAXIMUM_LENGTH (sourceSchema ! i)
      \<and> mset targetSchema = mset (aligned[i := (aligned ! i)\<lparr>CHARACTER_MAXIMUM_LENGTH := len\<rparr>]) \<longrightarrow>
      structureDifferences sourceSchema targetSchema =
        [''Column '' @ COLUMN_NAME (sourceSchema ! i) @ '' length mismatch: source ''
         @ show_nullable (CHARACTER_MAXIMUM_LENGTH (sourceSchema ! i)) @ '', target ''
         @ show_nullable len])
   \<and> (sanitizeTableName t = Inr s \<and> readSource s = Inr sourceSchema
      \<and> readTarget s = Inr targetSchema \<longrightarrow>
      fst (compareTableStructure readSource readTarget t) =
        Inr (structureDifferences sourceSchema targetSchema))"
proof (intro conjI impI)
  assume h: "distinct (map COLUMN_NAME sourceSchema) \<and> list_all2 same_column sourceSchema aligned
      \<and> mset targetSchema = mset aligned"
  then have "structureDifferences sourceSchema targetSchema =
      concat (map (\<lambda>(c, d). columnDifferences (COLUMN_NAME c) c d) (zip sourceSchema aligned))"
    by (intro structureDifferences_aligned) (auto dest: list_all2_same_column_names)
  moreover have "\<forall>(c, d) \<in> set (zip sourceSchema aligned). same_column c d"
    using h by (auto simp: list_all2_iff)
  ultimately show "structureDifferences sourceSchema targetSchema = []"
    by (auto simp: concat_eq_Nil_conv columnDifferences_same)
next
  assume h: "distinct (map COLUMN_NAME sourceSchema) \<and> list_all2 same_column sourceSchema aligned
      \<and> i < length sourceSchema \<and> len \<noteq> CHARACTER_MAXIMUM_LENGTH (sourceSchema ! i)
      \<and> mset targetSchema = mset (aligned[i := (aligned ! i)\<lparr>CHARACTER_MAXIMUM_LENGTH := len\<rparr>])"
  let ?changed = "aligned[i := (aligned ! i)\<lparr>CHARACTER_MAXIMUM_LENGTH := len\<rparr>]"
  let ?per = "map (\<lambda>(c, d). columnDifferences (COLUMN_NAME c) c d) (zip sourceSchema ?changed)"
  from h have len_eq: "length aligned = length sourceSchema"
    by (auto dest: list_all2_lengthD)
  from h have same: "same_column (sourceSchema ! j) (aligned ! j)" if "j < length sourceSchema" for j
    using that by (auto dest: list_all2_nthD)
  have names: "map COLUMN_NAME ?changed = map COLUMN_NAME sourceSchema"
  proof (rule nth_equalityI)
    show "length (map COLUMN_NAME ?changed) = length (map COLUMN_NAME sourceSchema)"
      using len_eq by simp
  next
    fix j
    assume "j < length (map COLUMN_NAME ?changed)"
    then have j: "j < length sourceSchema"
      using len_eq by simp
    with same [OF j] len_eq show "map COLUMN_NAME ?changed ! j = map COLUMN_NAME sourceSchema ! j"
      by (cases "j = i") (simp_all add: same_column_def)
  qed
  from h names have eq: "structureDifferences sourceSchema targetSchema = concat ?per"
    by (intro structureDifferences_aligned) auto
  have i: "i < length ?per"
    using h len_eq by simp
  have others: "?per ! j = []" if "j < length ?per" "j \<noteq> i" for j
  proof -
    from that(1) have j: "j < length sourceSchema"
      using len_eq by simp
    with that(2) same [OF j] len_eq show ?thesis
      by (simp add: columnDifferences_same)
  qed
  have at_i: "?per ! i =
      [''Column '' @ COLUMN_NAME (sourceSchema ! i) @ '' length mismatch: source ''
         @ show_nullable (CHARACTER_MAXIMUM_LENGTH (sourceSchema ! i)) @ '', target ''
         @ show_nullable len]"
    using h len_eq same [of i]
    by (auto simp: columnDifferences_def same_column_def)
  from concat_only_nth [of i ?per, OF i others] at_i eq
  show "structureDifferences sourceSchema targetSchema =
        [''Column '' @ COLUMN_NAME (sourceSchema ! i) @ '' length mismatch: source ''
         @ show_nullable (CHARACTER_MAXIMUM_LENGTH (sourceSchema ! i)) @ '', target ''
         @ show_nullable len]"
    by simp
next
  assume "sanitizeTableName t = Inr s \<and> readSource s = Inr sourceSchema
      \<and> readTarget s = Inr targetSchema"
  then show "fst (compareTableStructure readSource readTarget t) =
        Inr (structureDifferences sourceSchema targetSchema)"
    by (simp add: compareTableStructure_eval)
qed

theorem compareTableStructure_same_columns_witness:
  "structureDifferences [col_id, col_name] [col_name, col_id] = []
   \<and> structureDifferences [col_id, col_name]
        [col_name\<lparr>CHARACTER_MAXIMUM_LENGTH := Some 100\<rparr>, col_id]
      = [''Column name length mismatch: source 50, target 100'']"
proof -
  have d: "distinct (map COLUMN_NAME [col_id, col_name])"
    by (simp add: col_id_def col_name_def)
  have a: "list_all2 same_column [col_id, col_name] [col_id, col_name]"
    by (simp add: same_column_def)
  have p1: "mset [col_name, col_id] = mset [col_id, col_name]"
    by simp
  have p2: "mset [col_name\<lparr>CHARACTER_MAXIMUM_LENGTH := Some 100\<rparr>, col_id] =
      mset ([col_id, col_name][1 := ([col_id, col_name] ! 1)\<lparr>CHARACTER_MAXIMUM_LENGTH := Some 100\<rparr>])"
    by simp
  have l: "Some 100 \<noteq> CHARACTER_MAXIMUM_LENGTH ([col_id, col_name] ! 1)"
    by (simp add: col_name_def)
  have r: "''Column '' @ COLUMN_NAME ([col_id, col_name] ! 1) @ '' length mismatch: source ''
         @ show_nullable (CHARACTER_MAXIMUM_LENGTH ([col_id, col_name] ! 1)) @ '', target ''
         @ show_nullable (Some 100) = ''Column name length mismatch: source 50, target 100''"
    by code_simp
  note inst = compareTableStructure_same_columns
    [where sourceSchema = "[col_id, col_name]" and aligned = "[col_id, col_name]" and i = 1
       and len = "Some 100"]
  from inst [where targetSchema = "[col_name, col_id]"] d a p1
  have first: "structureDifferences [col_id, col_name] [col_name, col_id] = []"
    by blast
  from inst [where targetSchema = "[col_name\<lparr>CHARACTER_MAXIMUM_LENGTH := Some 100\<rparr>, col_id]"]
    d a p2 l
  have "structureDifferences [col_id, col_name]
        [col_name\<lparr>CHARACTER_MAXIMUM_LENGTH := Some 100\<rparr>, col_id]
      = [''Column '' @ COLUMN_NAME ([col_id, col_name] ! 1) @ '' length mismatch: source ''
         @ show_nullable (CHARACTER_MAXIMUM_LENGTH ([col_id, col_name] ! 1)) @ '', target ''
         @ show_nullable (Some 100)]"
    by (simp del: nth_Cons_numeral)
  with first show ?thesis
    by (simp only: r simp_thms)
qed

subsection \<open>The row-level fallback\<close>



lemma insertRows_Cons:
  "fst (insertRows env t schema offset i (r # rs)) =
     (if fst (insertRow env t schema offset i r)
      then Suc (fst (insertRows env t schema offset (Suc i) rs))
      else fst (insertRows env t schema offset (Suc i) rs))"
  "snd (insertRows env t schema offset i (r # rs)) =
     snd (insertRow env t schema offset i r) @ snd (insertRows env t schema offset (Suc i) rs)"
  by (simp_all split: prod.splits)




lemma transferBatchIndividually_eval:
  "fallbackRows env offset = Inr rows \<Longrightarrow>
     transferBatchIndividually env t schema offset batchSize =
       (Inr (fst (insertRows env t schema offset 0 (take batchSize (drop offset rows)))),
        [TransferBatchIndividually t offset batchSize, FetchWindow t offset batchSize]
        @ snd (insertRows env t schema offset 0 (take batchSize (drop offset rows))))"
  "fallbackRows env offset = Inl m \<Longrightarrow>
     transferBatchIndividually env t schema offset batchSize =
       (Inl m, [TransferBatchIndividually t offset batchSize, FetchWindow t offset batchSize])"
  by (simp_all add: transferBatchIndividually_def fetchWindow_def call_io_def bind_io_def
      prefix_events_def split: prod.splits)



subsection \<open>The batch transfer\<close>














subsection \<open>The repair of a problematic table\<close>


lemma retry_events_members:
  "x \<in> set (retry_events ev n ds) \<Longrightarrow> x = ev \<or> (\<exists>d. x = Sleep d)"
  by (induction ev n ds rule: retry_events.induct) auto

lemma retry_io_events:
  "x \<in> set (snd (retry_io ev operation)) \<Longrightarrow> x = ev \<or> (\<exists>d. x = Sleep d)"
  by (auto simp: retry_io_def Let_def dest: retry_events_members)

lemma retransferWindow_events:
  assumes "x \<in> set (snd (retransferWindow env t schema offset))"
  shows "x \<noteq> TargetStatement q"
proof -
  from assms [unfolded retransferWindow_def]
  have "x = FetchWindow t offset RETRANSFER_BATCH_SIZE \<or> (\<exists>d. x = Sleep d)
      \<or> (\<exists>rs. x = BulkInsert t rs)"
    by (auto dest!: bind_io_events retry_io_events
        simp: return_io_def throw_io_def split: option.splits if_splits)
  then show ?thesis
    by auto
qed

lemma insertRow_events: "x \<in> set (snd (insertRow env t schema offset i r)) \<Longrightarrow> x \<noteq> TargetStatement q"
  by (auto simp: insertRow_def Let_def split: sum.splits option.splits)

lemma insertRows_events:
  "x \<in> set (snd (insertRows env t schema offset i rs)) \<Longrightarrow> x \<noteq> TargetStatement q"
  by (induction rs arbitrary: i)
     (auto simp add: insertRows_Cons simp del: insertRows.simps(2) dest: insertRow_events)

lemma transferBatchIndividually_events:
  "x \<in> set (snd (transferBatchIndividually env t schema offset batchSize)) \<Longrightarrow>
     x \<noteq> TargetStatement q"
  by (cases "fallbackRows env offset")
     (auto simp: transferBatchIndividually_eval dest: insertRows_events)

lemma retransferLoop_events:
  "x \<in> set (snd (retransferLoop env t schema totalRows offset insertedCount)) \<Longrightarrow>
     x \<noteq> TargetStatement q"
proof (induction "totalRows - offset" arbitrary: offset insertedCount rule: less_induct)
  case less
  show ?case
  proof (cases "offset < totalRows")
    case False
    with less.prems show ?thesis
      by (simp add: retransferLoop.simps [of _ _ _ totalRows offset])
  next
    case True
    let ?next = "offset + RETRANSFER_BATCH_SIZE"
    have smaller: "totalRows - ?next < totalRows - offset"
      using True by (simp add: RETRANSFER_BATCH_SIZE_def)
    note IH = less.hyps [OF smaller]
    obtain a tr where w: "retransferWindow env t schema offset = (a, tr)"
      by (cases "retransferWindow env t schema offset")
    have tr: "y \<in> set tr \<Longrightarrow> y \<noteq> TargetStatement q" for y
      using retransferWindow_events [of y env t schema offset q] w by simp
    show ?thesis
    proof (cases a)
      case (Inr n)
      with w True less.prems
      have "x \<in> set tr \<or> x \<in> set (snd (retransferLoop env t schema totalRows ?next (insertedCount + n)))"
        by (simp add: retransferLoop.simps [of _ _ _ totalRows offset])
      with tr IH show ?thesis
        by blast
    next
      case (Inl m)
      let ?size = "min RETRANSFER_BATCH_SIZE (totalRows - offset)"
      obtain b tr' where fb: "transferBatchIndividually env t schema offset ?size = (b, tr')"
        by (cases "transferBatchIndividually env t schema offset ?size")
      have tr': "y \<in> set tr' \<Longrightarrow> y \<noteq> TargetStatement q" for y
        using transferBatchIndividually_events [of y env t schema offset ?size q] fb by simp
      show ?thesis
      proof (cases b)
        case inner: (Inl e)
        with w Inl fb True less.prems have "x \<in> set tr \<or> x \<in> set tr'"
          by (auto simp add: retransferLoop.simps [of _ _ _ totalRows offset] split: if_splits)
        with tr tr' show ?thesis
          by blast
      next
        case inner: (Inr k)
        with w Inl fb True less.prems
        have "x \<in> set tr \<or> x \<in> set tr'
            \<or> x \<in> set (snd (retransferLoop env t schema totalRows ?next (insertedCount + k)))"
          by (auto simp add: retransferLoop.simps [of _ _ _ totalRows offset] split: if_splits)
        with tr tr' IH show ?thesis
          by blast
      qed
    qed
  qed
qed

lemma retransferTableData_statements:
  assumes "TargetStatement q \<in> set (snd (retransferTableData env t))"
  shows "q = ''DELETE FROM ['' @ t @ '']''"
proof -
  from assms [unfolded retransferTableData_def]
  consider "TargetStatement q \<in> set (snd (target_statement env (''DELETE FROM ['' @ t @ '']'')))"
    | "TargetStatement q \<in> set (snd (getTableSchema Source (sourceCatalog env) t))"
    | "TargetStatement q \<in> set (snd (call_io (CountRows Source t) (totalResult env)))"
    | schema n where "TargetStatement q \<in> set (snd (retransferLoop env t schema n 0 0))"
    by (auto dest!: bind_io_events simp: return_io_def split: if_splits)
  then show ?thesis
  proof cases
    case 1
    then show ?thesis
      by (simp add: target_statement_def statement_io_def)
  next
    case 2
    then show ?thesis
      by (auto simp: getTableSchema_def call_io_def throw_io_def split: sum.splits)
  next
    case 3
    then show ?thesis
      by (simp add: call_io_def)
  next
    case 4
    with retransferLoop_events show ?thesis
      by blast
  qed
qed

lemma retransferTableData_first:
  "take 1 (snd (retransferTableData env t)) = [TargetStatement (''DELETE FROM ['' @ t @ '']'')]"
  by (cases "targetQuery env (''DELETE FROM ['' @ t @ '']'')")
     (simp_all add: retransferTableData_def target_statement_def statement_io_def)

lemma fixTableStructure_eval:
  assumes "sanitizeTableName t = Inr s"
    and "fixSourceCatalog env s = Inr sourceSchema" "fixTargetCatalog env s = Inr targetSchema"
    and "targetQuery env (''DROP TABLE IF EXISTS ['' @ t @ ''_backup]'') = None"
    and "targetQuery env (''SELECT * INTO ['' @ t @ ''_backup] FROM ['' @ t @ '']'') = None"
    and "targetQuery env (''DROP TABLE ['' @ t @ '']'') = None"
    and "targetQuery env (generateCreateTableSQL t sourceSchema) = None"
  shows "fixTableStructure env t =
     (Inr True,
      [GetTableSchema Source s, GetTableSchema Target s,
       TargetStatement (''DROP TABLE IF EXISTS ['' @ t @ ''_backup]''),
       TargetStatement (''SELECT * INTO ['' @ t @ ''_backup] FROM ['' @ t @ '']''),
       TargetStatement (''DROP TABLE ['' @ t @ '']''),
       TargetStatement (generateCreateTableSQL t sourceSchema)])"
  using assms
  by (simp add: fixTableStructure_def getTableSchema_sanitized target_statement_def
      statement_io_def return_io_def)

text \<open>
  C2, as the code has it.  For a problematic table with a \<open>STRUCTURE\<close> issue, when the
  schema reads and the four statements succeed, the repair backs the target table up to
  the side table, drops it and creates it from the source schema, and after that, only if
  the table also has a \<open>ROW_COUNT\<close> or \<open>DATA_CHECKSUM\<close> issue, retransfers its data.
  For a table with only \<open>ROW_COUNT\<close> or \<open>DATA_CHECKSUM\<close> issues, the repair is the
  retransfer alone, whose only statement on the target's tables is the \<open>DELETE\<close> it
  starts with: nothing is dropped or created.  A table with neither kind of issue is
  left as it is.
\<close>

theorem fixTable_recreates_then_retransfers:
  "(hasStructureIssues verification \<and> sanitizeTableName t = Inr s
      \<and> fixSourceCatalog env s = Inr sourceSchema \<and> fixTargetCatalog env s = Inr targetSchema
      \<and> targetQuery env (''DROP TABLE IF EXISTS ['' @ t @ ''_backup]'') = None
      \<and> targetQuery env (''SELECT * INTO ['' @ t @ ''_backup] FROM ['' @ t @ '']'') = None
      \<and> targetQuery env (''DROP TABLE ['' @ t @ '']'') = None
      \<and> targetQuery env (generateCreateTableSQL t sourceSchema) = None \<longrightarrow>
      snd (fixTable env t verification) =
        [GetTableSchema Source s, GetTableSchema Target s,
         TargetStatement (''DROP TABLE IF EXISTS ['' @ t @ ''_backup]''),
         TargetStatement (''SELECT * INTO ['' @ t @ ''_backup] FROM ['' @ t @ '']''),
         TargetStatement (''DROP TABLE ['' @ t @ '']''),
         TargetStatement (generateCreateTableSQL t sourceSchema)]
        @ (if hasDataIssues verification then snd (retransferTableData env t) else []))
   \<and> (\<not> hasStructureIssues verification \<and> hasDataIssues verification \<longrightarrow>
        snd (fixTable env t verification) = snd (retransferTableData env t)
        \<and> (\<forall>q. TargetStatement q \<in> set (snd (fixTable env t verification)) \<longrightarrow>
               q = ''DELETE FROM ['' @ t @ '']''))
   \<and> take 1 (snd (retransferTableData env t)) = [TargetStatement (''DELETE FROM ['' @ t @ '']'')]
   \<and> (\<not> hasStructureIssues verification \<and> \<not> hasDataIssues verification \<longrightarrow>
        fixTable env t verification = (Inr (), []))"
proof (intro conjI impI allI)
  assume h: "hasStructureIssues verification \<and> sanitizeTableName t = Inr s
      \<and> fixSourceCatalog env s = Inr sourceSchema \<and> fixTargetCatalog env s = Inr targetSchema
      \<and> targetQuery env (''DROP TABLE IF EXISTS ['' @ t @ ''_backup]'') = None
      \<and> targetQuery env (''SELECT * INTO ['' @ t @ ''_backup] FROM ['' @ t @ '']'') = None
      \<and> targetQuery env (''DROP TABLE ['' @ t @ '']'') = None
      \<and> targetQuery env (generateCreateTableSQL t sourceSchema) = None"
  then have "fixTableStructure env t =
     (Inr True,
      [GetTableSchema Source s, GetTableSchema Target s,
       TargetStatement (''DROP TABLE IF EXISTS ['' @ t @ ''_backup]''),
       TargetStatement (''SELECT * INTO ['' @ t @ ''_backup] FROM ['' @ t @ '']''),
       TargetStatement (''DROP TABLE ['' @ t @ '']''),
       TargetStatement (generateCreateTableSQL t sourceSchema)])"
    by (intro fixTableStructure_eval) auto
  with h show "snd (fixTable env t verification) =
        [GetTableSchema Source s, GetTableSchema Target s,
         TargetStatement (''DROP TABLE IF EXISTS ['' @ t @ ''_backup]''),
         TargetStatement (''SELECT * INTO ['' @ t @ ''_backup] FROM ['' @ t @ '']''),
         TargetStatement (''DROP TABLE ['' @ t @ '']''),
         TargetStatement (generateCreateTableSQL t sourceSchema)]
        @ (if hasDataIssues verification then snd (retransferTableData env t) else [])"
    by (cases "retransferTableData env t"; cases "fst (retransferTableData env t)")
       (simp_all add: fixTable_def return_io_def)
next
  assume h: "\<not> hasStructureIssues verification \<and> hasDataIssues verification"
  then show same: "snd (fixTable env t verification) = snd (retransferTableData env t)"
    by (cases "retransferTableData env t"; cases "fst (retransferTableData env t)")
       (simp_all add: fixTable_def return_io_def)
  fix q
  assume "TargetStatement q \<in> set (snd (fixTable env t verification))"
  with same have "TargetStatement q \<in> set (snd (retransferTableData env t))"
    by simp
  then show "q = ''DELETE FROM ['' @ t @ '']''"
    by (rule retransferTableData_statements)
next
  show "take 1 (snd (retransferTableData env t)) = [TargetStatement (''DELETE FROM ['' @ t @ '']'')]"
    by (rule retransferTableData_first)
next
  assume "\<not> hasStructureIssues verification \<and> \<not> hasDataIssues verification"
  then show "fixTable env t verification = (Inr (), [])"
    by (simp add: fixTable_def return_io_def)
qed


theorem fixTable_recreates_then_retransfers_witness:
  "take 7 (snd (fixTable (example_db_env ''Invalid column type'') ''Orders''
       (fst (verifyTableData
               ((example_verify_env [col_id, col_name] [col_id])\<lparr>targetCountResult := Inr 4\<rparr>)
               ''Orders''))))
   = [GetTableSchema Source ''Orders'', GetTableSchema Target ''Orders'',
      TargetStatement ''DROP TABLE IF EXISTS [Orders_backup]'',
      TargetStatement ''SELECT * INTO [Orders_backup] FROM [Orders]'',
      TargetStatement ''DROP TABLE [Orders]'',
      TargetStatement (generateCreateTableSQL ''Orders'' [col_id, col_name]),
      TargetStatement ''DELETE FROM [Orders]'']"
proof -
  define env where "env = example_db_env ''Invalid column type''"
  define v where "v = fst (verifyTableData
      ((example_verify_env [col_id, col_name] [col_id])\<lparr>targetCountResult := Inr 4\<rparr>) ''Orders'')"
  have issues: "hasStructureIssues v" "hasDataIssues v"
    unfolding v_def by code_simp+
  have name: "sanitizeTableName ''Orders'' = Inr ''Orders''"
    by code_simp
  have answers: "fixSourceCatalog env ''Orders'' = Inr [col_id, col_name]"
    "fixTargetCatalog env ''Orders'' = Inr [col_id]"
    "targetQuery env q = None" for q
    by (simp_all add: env_def example_db_env_def)
  from fixTable_recreates_then_retransfers
    [where verification = v and t = "''Orders''" and s = "''Orders''" and env = env
       and sourceSchema = "[col_id, col_name]" and targetSchema = "[col_id]"]
    issues name answers
  have run: "snd (fixTable env ''Orders'' v) =
        [GetTableSchema Source ''Orders'', GetTableSchema Target ''Orders'',
         TargetStatement (''DROP TABLE IF EXISTS ['' @ ''Orders'' @ ''_backup]''),
         TargetStatement (''SELECT * INTO ['' @ ''Orders'' @ ''_backup] FROM ['' @ ''Orders'' @ '']''),
         TargetStatement (''DROP TABLE ['' @ ''Orders'' @ '']''),
         TargetStatement (generateCreateTableSQL ''Orders'' [col_id, col_name])]
        @ snd (retransferTableData env ''Orders'')"
    and first: "take 1 (snd (retransferTableData env ''Orders'')) =
        [TargetStatement (''DELETE FROM ['' @ ''Orders'' @ '']'')]"
    by simp_all
  have "take 7 (snd (fixTable env ''Orders'' v)) =
        [GetTableSchema Source ''Orders'', GetTableSchema Target ''Orders'',
         TargetStatement (''DROP TABLE IF EXISTS ['' @ ''Orders'' @ ''_backup]''),
         TargetStatement (''SELECT * INTO ['' @ ''Orders'' @ ''_backup] FROM ['' @ ''Orders'' @ '']''),
         TargetStatement (''DROP TABLE ['' @ ''Orders'' @ '']''),
         TargetStatement (generateCreateTableSQL ''Orders'' [col_id, col_name])]
        @ take 1 (snd (retransferTableData env ''Orders''))"
    by (simp add: run)
  with first have "take 7 (snd (fixTable env ''Orders'' v)) =
     [GetTableSchema Source ''Orders'', GetTableSchema Target ''Orders'',
      TargetStatement ''DROP TABLE IF EXISTS [Orders_backup]'',
      TargetStatement ''SELECT * INTO [Orders_backup] FROM [Orders]'',
      TargetStatement ''DROP TABLE [Orders]'',
      TargetStatement (generateCreateTableSQL ''Orders'' [col_id, col_name]),
      TargetStatement ''DELETE FROM [Orders]'']"
    by simp
  then show ?thesis
    by (simp only: env_def v_def)
qed

text \<open>
  C2 as stated fails for a table flagged \<open>STRUCTURE\<close> only.  The verifier finds a missing
  column and equal row counts, so the issues are the two \<open>STRUCTURE\<close> issues; the
  repair recreates the table and stops: no \<open>DELETE\<close>, no window is read, no row is
  loaded.
\<close>

theorem fixTable_structure_only_no_retransfer:
  "issues (fst (verifyTableData (example_verify_env [col_id, col_name] [col_id]) ''Orders''))
     = [\<lparr>type = ''STRUCTURE'', message = ''Column count mismatch: source 2, target 1''\<rparr>,
        \<lparr>type = ''STRUCTURE'', message = ''Missing column in target: name''\<rparr>]
   \<and> fixTable (example_db_env ''Invalid column type'') ''Orders''
        (fst (verifyTableData (example_verify_env [col_id, col_name] [col_id]) ''Orders''))
     = (Inr (),
        [GetTableSchema Source ''Orders'', GetTableSchema Target ''Orders'',
         TargetStatement ''DROP TABLE IF EXISTS [Orders_backup]'',
         TargetStatement ''SELECT * INTO [Orders_backup] FROM [Orders]'',
         TargetStatement ''DROP TABLE [Orders]'',
         TargetStatement (generateCreateTableSQL ''Orders'' [col_id, col_name])])"
  by code_simp

subsection \<open>The coercion of row values\<close>


lemma digit_char_decimal: "d < 10 \<Longrightarrow> digit_char d \<in> set ''0123456789''"
proof -
  assume d: "d < 10"
  have "take 10 ''0123456789abcdef'' = ''0123456789''"
    by simp
  moreover have "take 10 ''0123456789abcdef'' ! d = ''0123456789abcdef'' ! d"
    using d by (rule nth_take)
  moreover have "d < length ''0123456789''"
    using d by simp
  ultimately show ?thesis
    unfolding digit_char_def by (metis nth_mem)
qed

lemma digit_char_not_T: "d < 10 \<Longrightarrow> digit_char d \<noteq> CHR ''T''"
  using digit_char_decimal [of d] by auto


lemma show_nat_no_T: "CHR ''T'' \<notin> set (show_nat n)"
proof (induction n rule: less_induct)
  case (less n)
  show ?case
  proof (cases "n < 10")
    case True
    then show ?thesis
      using digit_char_not_T [of n] by (simp add: show_nat.simps [of n])
  next
    case False
    then have "n div 10 < n"
      by simp
    with less.IH have "CHR ''T'' \<notin> set (show_nat (n div 10))"
      by blast
    moreover have "digit_char (n mod 10) \<noteq> CHR ''T''"
      by (rule digit_char_not_T) simp
    ultimately show ?thesis
      using False by (simp add: show_nat.simps [of n])
  qed
qed

lemma length_show_nat: "n < 10 ^ Suc k \<Longrightarrow> length (show_nat n) \<le> Suc k"
proof (induction k arbitrary: n)
  case 0
  then show ?case
    by (simp add: show_nat.simps [of n])
next
  case (Suc k)
  show ?case
  proof (cases "n < 10")
    case True
    then show ?thesis
      by (simp add: show_nat.simps [of n])
  next
    case False
    from Suc.prems have "n < 10 ^ Suc k * 10"
      by (simp add: mult.commute)
    then have "n div 10 < 10 ^ Suc k"
      by (rule less_mult_imp_div_less)
    then have "length (show_nat (n div 10)) \<le> Suc k"
      by (rule Suc.IH)
    with False show ?thesis
      by (simp add: show_nat.simps [of n])
  qed
qed


lemma length_pad: "n < 10 ^ Suc k \<Longrightarrow> length (pad (Suc k) n) = Suc k"
  using length_show_nat [of n k] by (simp add: pad_def)

lemma length_pad_2: "n < 100 \<Longrightarrow> length (pad 2 n) = 2"
  using length_pad [of n 1] by (simp add: numeral_2_eq_2)

lemma length_pad_4: "n < 10000 \<Longrightarrow> length (pad 4 n) = 4"
proof -
  assume "n < 10000"
  then have "n < 10 ^ Suc 3"
    by simp
  then have "length (pad (Suc 3) n) = Suc 3"
    by (rule length_pad)
  moreover have "Suc 3 = 4"
    by simp
  ultimately show ?thesis
    by (simp only:)
qed

lemma pad_no_T: "CHR ''T'' \<notin> set (pad w n)"
  by (simp add: pad_def show_nat_no_T)

lemma replace_first_append:
  "a \<notin> set xs \<Longrightarrow> replace_first a b (xs @ a # ys) = xs @ b # ys"
  by (induction xs) auto

lemma take_length_append: "length xs = n \<Longrightarrow> take n (xs @ ys) = xs"
  by simp


lemma dateLiteral_ISO:
  assumes "0 \<le> y" "y \<le> 9999" "mo < 100" "d < 100" "h < 100" "mi < 100" "s < 100"
    and "toISOString (UTC y mo d h mi s ms) = Inr isoString"
  shows "dateLiteral isoString =
     [apostrophe] @ pad 4 (nat y) @ ''-'' @ pad 2 mo @ ''-'' @ pad 2 d @ '' ''
     @ pad 2 h @ '':'' @ pad 2 mi @ '':'' @ pad 2 s @ [apostrophe]"
proof -
  define date where "date = pad 4 (nat y) @ ''-'' @ pad 2 mo @ ''-'' @ pad 2 d"
  define time where "time = pad 2 h @ '':'' @ pad 2 mi @ '':'' @ pad 2 s"
  define rest where "rest = ''.'' @ pad 3 ms @ ''Z''"
  have "nat y < 10000"
    using assms(1,2) by simp
  then have four: "length (pad 4 (nat y)) = 4"
    by (rule length_pad_4)
  have len_date: "length date = 10"
    using four assms(3,4) by (simp add: date_def length_pad_2)
  have len_time: "length time = 8"
    using assms(5-7) by (simp add: time_def length_pad_2)
  have shape: "isoString = (date @ CHR ''T'' # time) @ rest"
    using assms(1,2,8) by (simp add: date_def time_def rest_def)
  have "length (date @ CHR ''T'' # time) = 19"
    using len_date len_time by simp
  then have "take 19 ((date @ CHR ''T'' # time) @ rest) = date @ CHR ''T'' # time"
    by (rule take_length_append)
  then have taken: "take 19 isoString = date @ CHR ''T'' # time"
    by (simp only: shape)
  have "CHR ''T'' \<notin> set date"
    by (simp add: date_def pad_no_T)
  then have "replace_first (CHR ''T'') (CHR '' '') (date @ CHR ''T'' # time) = date @ CHR '' '' # time"
    by (rule replace_first_append)
  with taken have "dateLiteral isoString = [apostrophe] @ (date @ CHR '' '' # time) @ [apostrophe]"
    by (simp only: dateLiteral_def)
  then show ?thesis
    by (simp add: date_def time_def)
qed


lemma textLiteral_apostrophes:
  "length (filter (\<lambda>c. c = apostrophe) (textLiteral str)) =
     2 * length (filter (\<lambda>c. c = apostrophe) str) + 2"
  "filter (\<lambda>c. c \<noteq> apostrophe) (textLiteral str) = filter (\<lambda>c. c \<noteq> apostrophe) str"
  unfolding textLiteral_def by (induction str) auto

lemma hexLiteral_shape:
  "take 2 (hexLiteral bytes) = ''0x''"
  "length (hexLiteral bytes) = 2 + 2 * length bytes"
  unfolding hexLiteral_def by (induction bytes) auto


lemma coerceValue_null:
  "coerceValue schema parse (key, JNull) = Inr (JString ''NULL'')"
  "coerceValue schema parse (key, JUndefined) = Inr (JString ''NULL'')"
  by (simp_all add: coerceValue_def)

lemma coerceValue_datetime_other:
  assumes "find (\<lambda>c. COLUMN_NAME c = key) schema = Some col" "isDateTimeColumn col"
  shows "parse str = InvalidDate \<Longrightarrow>
      coerceValue schema parse (key, JString str) = Inr (JString ''NULL'')"
    and "coerceValue schema parse (key, JBoolean b) = Inr (JString ''NULL'')"
    and "coerceValue schema parse (key, JBuffer bytes) = Inr (JString ''NULL'')"
    and "coerceValue schema parse (key, JNumber n) = Inr (JString ''NULL'')"
    and "coerceValue schema parse (key, JOther x) = Inr (JString ''NULL'')"
  using assms by (simp_all add: coerceValue_def)

lemma coerceValue_plain:
  assumes "\<forall>col. find (\<lambda>c. COLUMN_NAME c = key) schema = Some col \<longrightarrow> \<not> isDateTimeColumn col"
  shows "coerceValue schema parse (key, JString str) = Inr (JString (textLiteral str))"
    and "coerceValue schema parse (key, JBoolean b) = Inr (JString (if b then ''1'' else ''0''))"
    and "coerceValue schema parse (key, JBuffer bytes) = Inr (JString (hexLiteral bytes))"
    and "coerceValue schema parse (key, JNumber n) = Inr (JNumber n)"
    and "coerceValue schema parse (key, JDate date) = Inr (JDate date)"
    and "coerceValue schema parse (key, JOther x) = Inr (JOther x)"
  using assms
  by (cases "find (\<lambda>c. COLUMN_NAME c = key) schema"; simp add: coerceValue_def)+


lemma coerceValue_datetime:
  assumes col: "find (\<lambda>c. COLUMN_NAME c = key) schema = Some col" "isDateTimeColumn col"
    and range: "0 \<le> y" "y \<le> 9999" "mo < 100" "d < 100" "h < 100" "mi < 100" "s < 100"
  shows "coerceValue schema parse (key, JDate (UTC y mo d h mi s ms)) =
      Inr (JString (sqlDateTime y mo d h mi s))"
    and "parse str = UTC y mo d h mi s ms \<Longrightarrow>
      coerceValue schema parse (key, JString str) = Inr (JString (sqlDateTime y mo d h mi s))"
proof -
  obtain isoString where isoString: "toISOString (UTC y mo d h mi s ms) = Inr isoString"
    by simp
  from range isoString have literal: "dateLiteral isoString = sqlDateTime y mo d h mi s"
    unfolding sqlDateTime_def by (rule dateLiteral_ISO)
  have date: "coerceValue schema parse (key, JDate (UTC y mo d h mi s ms)) =
      (case toISOString (UTC y mo d h mi s ms) of
         Inl e \<Rightarrow> Inl e
       | Inr isoString \<Rightarrow> Inr (JString (dateLiteral isoString)))"
    using col by (simp add: coerceValue_def del: toISOString.simps)
  show "coerceValue schema parse (key, JDate (UTC y mo d h mi s ms)) =
      Inr (JString (sqlDateTime y mo d h mi s))"
    by (simp only: date isoString literal sum.case)
  assume parsed: "parse str = UTC y mo d h mi s ms"
  have "coerceValue schema parse (key, JString str) =
      (case toISOString (UTC y mo d h mi s ms) of
         Inl e \<Rightarrow> Inr (JString ''NULL'')
       | Inr isoString \<Rightarrow> Inr (JString (dateLiteral isoString)))"
    using col parsed by (simp add: coerceValue_def Let_def del: toISOString.simps)
  then show "coerceValue schema parse (key, JString str) =
      Inr (JString (sqlDateTime y mo d h mi s))"
    by (simp only: isoString literal sum.case)
qed


text \<open>
  C8, as the code has it.  The coercion of one value of a row: \<open>null\<close> and \<open>undefined\<close>
  become \<open>NULL\<close>.  In a column whose type is \<open>datetime\<close>, \<open>datetime2\<close> or
  \<open>smalldatetime\<close> (compared in lower case), a date of a year from 0 to 9999, and a
  string that parses to one, become the quoted literal \<open>'YYYY-MM-DD HH:MM:SS'\<close>; a string
  that does not parse, and every other value that is not a date, become \<open>NULL\<close>.  In any
  other column, a string is put between apostrophes with each of its apostrophes
  doubled, a boolean becomes 1 or 0, a buffer becomes \<open>0x\<close> followed by two hexadecimal
  digits per byte, and every other value, a date included, is passed through as it is.
\<close>

theorem coerceValue_rules:
  "coerceValue schema parse (key, JNull) = Inr (JString ''NULL'')
   \<and> coerceValue schema parse (key, JUndefined) = Inr (JString ''NULL'')
   \<and> (find (\<lambda>c. COLUMN_NAME c = key) schema = Some col \<and> isDateTimeColumn col \<longrightarrow>
        (0 \<le> y \<and> y \<le> 9999 \<and> mo < 100 \<and> d < 100 \<and> h < 100 \<and> mi < 100 \<and> s < 100 \<longrightarrow>
           coerceValue schema parse (key, JDate (UTC y mo d h mi s ms)) =
             Inr (JString (sqlDateTime y mo d h mi s))
           \<and> (parse str = UTC y mo d h mi s ms \<longrightarrow>
                coerceValue schema parse (key, JString str) =
                  Inr (JString (sqlDateTime y mo d h mi s))))
        \<and> (parse str = InvalidDate \<longrightarrow>
              coerceValue schema parse (key, JString str) = Inr (JString ''NULL''))
        \<and> coerceValue schema parse (key, JBoolean b) = Inr (JString ''NULL'')
        \<and> coerceValue schema parse (key, JBuffer bytes) = Inr (JString ''NULL'')
        \<and> coerceValue schema parse (key, JNumber n) = Inr (JString ''NULL'')
        \<and> coerceValue schema parse (key, JOther x) = Inr (JString ''NULL''))
   \<and> ((\<forall>col. find (\<lambda>c. COLUMN_NAME c = key) schema = Some col \<longrightarrow> \<not> isDateTimeColumn col) \<longrightarrow>
        coerceValue schema parse (key, JString str) = Inr (JString (textLiteral str))
        \<and> coerceValue schema parse (key, JBoolean b) = Inr (JString (if b then ''1'' else ''0''))
        \<and> coerceValue schema parse (key, JBuffer bytes) = Inr (JString (hexLiteral bytes))
        \<and> coerceValue schema parse (key, JNumber n) = Inr (JNumber n)
        \<and> coerceValue schema parse (key, JDate date) = Inr (JDate date)
        \<and> coerceValue schema parse (key, JOther x) = Inr (JOther x))
   \<and> isDateTimeColumn col =
       (toLowerCase (DATA_TYPE col) \<in> {''datetime'', ''datetime2'', ''smalldatetime''})
   \<and> length (filter (\<lambda>c. c = apostrophe) (textLiteral str)) =
       2 * length (filter (\<lambda>c. c = apostrophe) str) + 2
   \<and> filter (\<lambda>c. c \<noteq> apostrophe) (textLiteral str) = filter (\<lambda>c. c \<noteq> apostrophe) str
   \<and> take 2 (hexLiteral bytes) = ''0x''
   \<and> length (hexLiteral bytes) = 2 + 2 * length bytes"
proof -
  have family: "isDateTimeColumn col =
       (toLowerCase (DATA_TYPE col) \<in> {''datetime'', ''datetime2'', ''smalldatetime''})"
    by (simp add: isDateTimeColumn_def)
  show ?thesis
    by (intro conjI impI; (elim conjE)?;
        (rule coerceValue_null coerceValue_datetime coerceValue_datetime_other
           coerceValue_plain family textLiteral_apostrophes hexLiteral_shape; assumption?))
qed


theorem coerceValue_rules_witness:
  "coerceValue [col_id, col_at] (\<lambda>str. InvalidDate) (''at'', JDate (UTC 2024 1 5 3 4 5 6))
     = Inr (JString ([apostrophe] @ ''2024-01-05 03:04:05'' @ [apostrophe]))
   \<and> coerceValue [col_id, col_at] (\<lambda>str. InvalidDate) (''at'', JString ''yesterday'')
     = Inr (JString ''NULL'')
   \<and> coerceValue [col_id, col_name] (\<lambda>str. InvalidDate) (''name'', JBoolean True)
     = Inr (JString ''1'')"
proof -
  let ?parse = "\<lambda>str :: string. InvalidDate"
  have at: "find (\<lambda>c. COLUMN_NAME c = ''at'') [col_id, col_at] = Some col_at
      \<and> isDateTimeColumn col_at"
    by code_simp
  have range: "(0::int) \<le> 2024 \<and> (2024::int) \<le> 9999 \<and> (1::nat) < 100 \<and> (5::nat) < 100
      \<and> (3::nat) < 100 \<and> (4::nat) < 100 \<and> (5::nat) < 100"
    by simp
  have literal: "sqlDateTime 2024 1 5 3 4 5 = [apostrophe] @ ''2024-01-05 03:04:05'' @ [apostrophe]"
    by code_simp
  have found: "find (\<lambda>c. COLUMN_NAME c = ''name'') [col_id, col_name] = Some col_name"
    by code_simp
  have "\<not> isDateTimeColumn col_name"
    by code_simp
  with found have name:
    "\<forall>col. find (\<lambda>c. COLUMN_NAME c = ''name'') [col_id, col_name] = Some col \<longrightarrow>
       \<not> isDateTimeColumn col"
    by simp
  note first = coerceValue_rules
    [where schema = "[col_id, col_at]" and key = "''at''" and col = col_at and parse = ?parse
       and y = 2024 and mo = 1 and d = 5 and h = 3 and mi = 4 and s = 5 and ms = 6
       and str = "''yesterday''"]
  note second = coerceValue_rules
    [where schema = "[col_id, col_name]" and key = "''name''" and parse = ?parse and b = True]
  note datetime = first [THEN conjunct2, THEN conjunct2, THEN conjunct1, THEN mp, OF at]
  have a: "coerceValue [col_id, col_at] ?parse (''at'', JDate (UTC 2024 1 5 3 4 5 6))
       = Inr (JString (sqlDateTime 2024 1 5 3 4 5))"
    by (rule datetime [THEN conjunct1, THEN mp, OF range, THEN conjunct1])
  have b: "coerceValue [col_id, col_at] ?parse (''at'', JString ''yesterday'') = Inr (JString ''NULL'')"
    by (rule datetime [THEN conjunct2, THEN conjunct1, THEN mp, OF refl])
  have c: "coerceValue [col_id, col_name] ?parse (''name'', JBoolean True)
       = Inr (JString (if True then ''1'' else ''0''))"
    by (rule second [THEN conjunct2, THEN conjunct2, THEN conjunct2, THEN conjunct1, THEN mp,
          OF name, THEN conjunct2, THEN conjunct1])
  from a b c show ?thesis
    by (simp only: literal if_True simp_thms)
qed

text \<open>
  C8 as stated fails on the temporal types outside the \<open>datetime\<close> family and on values
  that are neither dates nor strings.  The date of a column of type \<open>date\<close> is passed
  through as the \<open>Date\<close> object, not as a \<open>YYYY-MM-DD HH:MM:SS\<close> string; a number in a
  \<open>datetime\<close> column becomes \<open>NULL\<close>.
\<close>

theorem coerceValue_date_column_passes_through:
  "\<not> isDateTimeColumn col_day
   \<and> coerceValue [col_id, col_day] (\<lambda>str. InvalidDate) (''day'', JDate (UTC 2024 1 5 0 0 0 0))
     = Inr (JDate (UTC 2024 1 5 0 0 0 0))
   \<and> coerceValue [col_id, col_at] (\<lambda>str. InvalidDate) (''at'', JNumber 20240105)
     = Inr (JString ''NULL'')"
  by code_simp

end
